theory Spec2Isabelle
  imports Main
begin

section \<open>Python values and exceptions\<close>

text \<open>
  The client of \<^verbatim>\<open>bravado_bitjws/client.py\<close> handles untyped Python values: keyword
  arguments, the request dict, unmarshalled response bodies. They are modelled by one
  datatype; a dict is an association list in iteration order.
\<close>

datatype pyval =
    PNone
  | PInt int
  | PStr string
  | PDict "(string \<times> pyval) list"

text \<open>
  \<^verbatim>\<open>IncomingResponse\<close> of bravado_core, with the attributes the triage reads.
\<close>

record incoming_response =
  status_code :: int
  reason :: string
  body :: pyval

text \<open>
  The exceptions that leave the functions of \<^verbatim>\<open>client.py\<close>.
  \<^verbatim>\<open>HTTPError(response, message=None, swagger_result=None)\<close> keeps the response
  (status and reason), an optional message and an optional structured payload.
  \<^verbatim>\<open>AttributeError\<close> is what Python raises for \<^verbatim>\<open>.get\<close> on a value that is no dict.
\<close>

datatype exn =
    SwaggerMappingError string
  | MatchingResponseNotFound string
  | HTTPError incoming_response "string option" "pyval option"
  | AttributeError string
  | LibraryError string

section \<open>Operations of the specification\<close>

text \<open>
  \<^verbatim>\<open>Param\<close> of bravado_core, with what \<^verbatim>\<open>construct_params\<close> reads of it: the name,
  the required flag and \<^verbatim>\<open>has_default()\<close>; the location is for the marshaller.
\<close>

record param =
  name :: string
  location :: string
  required :: bool
  default_value :: "pyval option"

definition has_default :: "param \<Rightarrow> bool" where
  "has_default p = (default_value p \<noteq> None)"

type_synonym schema = string

text \<open>
  \<^verbatim>\<open>Operation\<close> of bravado_core. \<open>api_url\<close> stands for
  \<^verbatim>\<open>operation.swagger_spec.api_url\<close>; \<open>params\<close> is the dict from parameter name to
  \<^verbatim>\<open>Param\<close>, \<open>responses\<close> the response map from status code to the schema declared
  for it, \<open>None\<close> where none is; \<open>deprecated\<close> is the flag that
  \<^verbatim>\<open>warn_for_deprecated_op\<close> looks at.
\<close>

record operation =
  operation_id :: string
  http_method :: string
  path_name :: string
  api_url :: string
  params :: "(string \<times> param) list"
  responses :: "int \<Rightarrow> schema option"
  deprecated :: bool

section \<open>Response triage\<close>

text \<open>
  Modelled from the spec: \<^verbatim>\<open>raise_on_unexpected\<close> is imported from the bravado
  library (\<^verbatim>\<open>from bravado.client import *\<close>) and is not part of the source file.
  The docstring of \<^verbatim>\<open>bitjws_response_callback\<close> and step 1 of the triage algorithm
  give its contract: on a 5XX status code an HTTPError with minimal information (the
  response's status and reason only). \<open>Some e\<close> is the exception raised, \<open>None\<close> a
  normal return.
\<close>

definition raise_on_unexpected :: "incoming_response \<Rightarrow> exn option" where
  "raise_on_unexpected http_response =
     (if 500 \<le> status_code http_response \<and> status_code http_response \<le> 599
      then Some (HTTPError http_response None None)
      else None)"

text \<open>
  Modelled from the spec: \<^verbatim>\<open>raise_on_expected\<close>, imported from the bravado library
  as well. Contract (docstring, and step 3 of the triage algorithm): on a status code
  outside the success range 2XX an HTTPError that carries the unmarshalled value.
\<close>

definition raise_on_expected :: "incoming_response \<Rightarrow> pyval \<Rightarrow> exn option" where
  "raise_on_expected http_response swagger_return_value =
     (if \<not> (200 \<le> status_code http_response \<and> status_code http_response \<le> 299)
      then Some (HTTPError http_response None (Some swagger_return_value))
      else None)"

text \<open>
  Modelled from the spec: \<^verbatim>\<open>unmarshal_response\<close> of bravado_core, the response
  unmarshaller of the external interfaces: it yields the typed value of the body under
  the schema declared for the response's status code, and fails with a "no matching
  response" condition when the status code has no declared schema. The schema-directed
  conversion \<open>um\<close> and the text of the diagnostic \<open>diag\<close> belong to the library and are
  parameters.
\<close>

definition unmarshal_response ::
  "(schema \<Rightarrow> incoming_response \<Rightarrow> pyval) \<Rightarrow> (incoming_response \<Rightarrow> operation \<Rightarrow> string) \<Rightarrow>
   incoming_response \<Rightarrow> operation \<Rightarrow> exn + pyval" where
  "unmarshal_response um diag incoming_response op =
     (case responses op (status_code incoming_response) of
        None \<Rightarrow> Inl (MatchingResponseNotFound (diag incoming_response op))
      | Some sch \<Rightarrow> Inr (um sch incoming_response))"

text \<open>
  \<^verbatim>\<open>bitjws_response_callback(incoming_response, operation)\<close>, statement by statement:
  the 5XX check first; then the unmarshalling inside \<^verbatim>\<open>try\<close>, where only
  \<^verbatim>\<open>MatchingResponseNotFound\<close> is caught and re-raised as an HTTPError whose message
  is \<^verbatim>\<open>str(e)\<close>; then the check of documented non-2XX responses; then the return.
\<close>

definition bitjws_response_callback ::
  "(schema \<Rightarrow> incoming_response \<Rightarrow> pyval) \<Rightarrow> (incoming_response \<Rightarrow> operation \<Rightarrow> string) \<Rightarrow>
   incoming_response \<Rightarrow> operation \<Rightarrow> exn + pyval" where
  "bitjws_response_callback um diag incoming_response operation =
     (case raise_on_unexpected incoming_response of
        Some e \<Rightarrow> Inl e
      | None \<Rightarrow>
          (case unmarshal_response um diag incoming_response operation of
             Inl (MatchingResponseNotFound e) \<Rightarrow>
               Inl (HTTPError incoming_response (Some e) None)
           | Inl other \<Rightarrow> Inl other
           | Inr swagger_return_value \<Rightarrow>
               (case raise_on_expected incoming_response swagger_return_value of
                  Some e \<Rightarrow> Inl e
                | None \<Rightarrow> Inr swagger_return_value)))"

section \<open>Request construction\<close>

subsection \<open>Dicts and strings of Python\<close>

text \<open>
  A dict is an association list with one entry per key. \<open>dict_pop\<close> is
  \<^verbatim>\<open>d.pop(k, None)\<close>: the value under the key, if any, and the dict without the key.
  \<open>dict_set\<close> is \<^verbatim>\<open>d[k] = v\<close>: the entry is replaced in place, or added at the end.
\<close>

definition dict_pop :: "string \<Rightarrow> (string \<times> 'v) list \<Rightarrow> 'v option \<times> (string \<times> 'v) list" where
  "dict_pop k d = (map_of d k, filter (\<lambda>kv. fst kv \<noteq> k) d)"

fun dict_set :: "string \<Rightarrow> 'v \<Rightarrow> (string \<times> 'v) list \<Rightarrow> (string \<times> 'v) list" where
  "dict_set k v [] = [(k, v)]"
| "dict_set k v ((k', v') # d) = (if k' = k then (k, v) # d else (k', v') # dict_set k v d)"

text \<open>
  \<^verbatim>\<open>s.rstrip('/')\<close> and \<^verbatim>\<open>s.upper()\<close>. A \<open>string\<close> of HOL is a list of bytes, and
  \<open>upper\<close> maps the letters a to z of ASCII, which is what the HTTP method names of an
  interface description are made of.
\<close>

definition rstrip_slash :: "string \<Rightarrow> string" where
  "rstrip_slash s = rev (dropWhile (\<lambda>c. c = CHR ''/'') (rev s))"

definition upper_char :: "char \<Rightarrow> char" where
  "upper_char c =
     (case map_of (zip ''abcdefghijklmnopqrstuvwxyz'' ''ABCDEFGHIJKLMNOPQRSTUVWXYZ'') c of
        Some u \<Rightarrow> u
      | None \<Rightarrow> c)"

definition upper :: "string \<Rightarrow> string" where
  "upper s = map upper_char s"

subsection \<open>The adapter of one operation\<close>

text \<open>
  The request is the Python dict that \<^verbatim>\<open>construct_request\<close> builds, with the keys
  \<^verbatim>\<open>method\<close>, \<^verbatim>\<open>url\<close>, \<^verbatim>\<open>params\<close>, \<^verbatim>\<open>headers\<close> and the optional timeouts; the
  keyword arguments are the dict \<^verbatim>\<open>op_kwargs\<close>.
\<close>

type_synonym request = "(string \<times> pyval) list"

type_synonym kwargs = "(string \<times> pyval) list"

text \<open>
  Modelled from the spec: \<^verbatim>\<open>marshal_param(param, value, request)\<close> of bravado_core is
  the parameter marshaller of the external interfaces: it mutates the request in place,
  placing the value at the parameter's location. It is a parameter \<open>mp\<close> of the model,
  from the request before to the request after.
\<close>

type_synonym marshaller = "param \<Rightarrow> pyval \<Rightarrow> request \<Rightarrow> request"

text \<open>
  The first loop of \<^verbatim>\<open>construct_params\<close>, over \<^verbatim>\<open>iteritems(op_kwargs)\<close>: each
  keyword is popped from \<^verbatim>\<open>current_params\<close>; a keyword that is not there raises
  \<^verbatim>\<open>"{0} does not have parameter {1}".format(operation_id, param_name)\<close>; otherwise
  its value is marshalled. The result is what is left of \<^verbatim>\<open>current_params\<close>, and
  the request.
\<close>

fun marshal_supplied ::
  "marshaller \<Rightarrow> string \<Rightarrow> (string \<times> param) list \<Rightarrow> kwargs \<Rightarrow> request \<Rightarrow>
   exn + ((string \<times> param) list \<times> request)" where
  "marshal_supplied mp opid current_params [] request = Inr (current_params, request)"
| "marshal_supplied mp opid current_params ((param_name, param_value) # op_kwargs) request =
     (case dict_pop param_name current_params of
        (None, _) \<Rightarrow>
          Inl (SwaggerMappingError (opid @ '' does not have parameter '' @ param_name))
      | (Some p, remaining) \<Rightarrow>
          marshal_supplied mp opid remaining op_kwargs (mp p param_value request))"

text \<open>
  The second loop, over \<^verbatim>\<open>itervalues(current_params)\<close>: a required parameter that
  is left raises \<^verbatim>\<open>'{0} is a required parameter'.format(remaining_param.name)\<close>; one
  that is not required and has a default is marshalled with the value \<^verbatim>\<open>None\<close>.
\<close>

fun check_remaining :: "marshaller \<Rightarrow> param list \<Rightarrow> request \<Rightarrow> exn + request" where
  "check_remaining mp [] request = Inr request"
| "check_remaining mp (remaining_param # ps) request =
     (if required remaining_param
      then Inl (SwaggerMappingError (name remaining_param @ '' is a required parameter''))
      else if \<not> required remaining_param \<and> has_default remaining_param
      then check_remaining mp ps (mp remaining_param PNone request)
      else check_remaining mp ps request)"

text \<open>
  \<^verbatim>\<open>construct_params(self, request, op_kwargs)\<close>: the two loops, the first on a copy of
  the operation's parameters. The Python mutates the request and returns nothing; the
  model returns the request.
\<close>

definition construct_params :: "marshaller \<Rightarrow> operation \<Rightarrow> request \<Rightarrow> kwargs \<Rightarrow> exn + request" where
  "construct_params mp op request op_kwargs =
     (let current_params = params op in
      case marshal_supplied mp (operation_id op) current_params op_kwargs request of
        Inl e \<Rightarrow> Inl e
      | Inr (current_params', request') \<Rightarrow>
          check_remaining mp (map snd current_params') request')"

text \<open>
  The loop of \<^verbatim>\<open>construct_request\<close> that copies the optional request options.
\<close>

definition copy_request_options :: "(string \<times> pyval) list \<Rightarrow> request \<Rightarrow> request" where
  "copy_request_options request_options request =
     foldl (\<lambda>req request_option.
              case map_of request_options request_option of
                Some v \<Rightarrow> dict_set request_option v req
              | None \<Rightarrow> req)
       request [''connect_timeout'', ''timeout'']"

text \<open>
  The request dict as \<^verbatim>\<open>construct_request\<close> first builds it, before the parameters
  are marshalled into it, read by value. The source puts the caller's own headers dict
  under \<^verbatim>\<open>headers\<close>, not a copy; the sharing is the subject of the last subsection
  of this section.
\<close>

definition initial_request :: "operation \<Rightarrow> (string \<times> pyval) list \<Rightarrow> request" where
  "initial_request op request_options =
     (let url = rstrip_slash (api_url op) @ path_name op;
          request =
            [(''method'', PStr (upper (http_method op))),
             (''url'', PStr url),
             (''params'', PDict []),
             (''headers'',
                (case map_of request_options ''headers'' of Some h \<Rightarrow> h | None \<Rightarrow> PDict []))]
      in copy_request_options request_options request)"

text \<open>
  \<^verbatim>\<open>construct_request(self, **op_kwargs)\<close>. The reserved key is popped from the keyword
  arguments, with \<^verbatim>\<open>{}\<close> as the default; \<^verbatim>\<open>request_options.get\<close> needs a dict, and
  Python raises AttributeError on the other values of this model. The result is the
  exception, or the returned request as it reads when the function returns.
\<close>

definition construct_request :: "marshaller \<Rightarrow> operation \<Rightarrow> kwargs \<Rightarrow> exn + request" where
  "construct_request mp op op_kwargs =
     (case dict_pop ''_request_options'' op_kwargs of
        (popped, op_kwargs') \<Rightarrow>
          (case (case popped of None \<Rightarrow> PDict [] | Some v \<Rightarrow> v) of
             PDict request_options \<Rightarrow>
               construct_params mp op (initial_request op request_options) op_kwargs'
           | _ \<Rightarrow> Inl (AttributeError ''object has no attribute get'')))"

subsection \<open>Calling an operation\<close>

text \<open>
  What a call can change outside its own values: the debug log, the warnings, and the
  requests handed to the transport.
\<close>

record world =
  debug_log :: "(string \<times> kwargs) list"
  warnings :: "string list"
  sent :: "request list"

text \<open>
  Modelled from the spec: \<^verbatim>\<open>warn_for_deprecated_op\<close> of the bravado library emits a
  deprecation warning if the operation is marked deprecated, a side effect only.
\<close>

definition warn_for_deprecated_op :: "operation \<Rightarrow> world \<Rightarrow> world" where
  "warn_for_deprecated_op op w =
     (if deprecated op then w\<lparr>warnings := warnings w @ [operation_id op]\<rparr> else w)"

text \<open>
  Modelled from the spec: the transport, \<^verbatim>\<open>http_client.request(request_params, callback)\<close>:
  it takes the described request for sending and returns a future for the exchange.
\<close>

datatype http_future = HTTPFuture request

definition http_client_request :: "request \<Rightarrow> world \<Rightarrow> http_future \<times> world" where
  "http_client_request request_params w = (HTTPFuture request_params, w\<lparr>sent := sent w @ [request_params]\<rparr>)"

text \<open>
  \<^verbatim>\<open>__call__(self, **op_kwargs)\<close>: log, warn, construct the request, hand it to the
  transport. An exception of \<^verbatim>\<open>construct_request\<close> leaves the call before the
  transport is reached.
\<close>

definition call_operation :: "marshaller \<Rightarrow> operation \<Rightarrow> kwargs \<Rightarrow> world \<Rightarrow> (exn + http_future) \<times> world" where
  "call_operation mp op op_kwargs w =
     (let w1 = w\<lparr>debug_log := debug_log w @ [(operation_id op, op_kwargs)]\<rparr>;
          w2 = warn_for_deprecated_op op w1
      in case construct_request mp op op_kwargs of
           Inl e \<Rightarrow> (Inl e, w2)
         | Inr request_params \<Rightarrow>
             (case http_client_request request_params w2 of
                (future, w3) \<Rightarrow> (Inr future, w3)))"

subsection \<open>The headers dict that the request shares with the caller\<close>

text \<open>
  \<^verbatim>\<open>construct_request\<close> puts into the request the very dict object that the caller
  passed under \<^verbatim>\<open>_request_options['headers']\<close> (no copy is made), and
  \<^verbatim>\<open>marshal_param\<close> writes into the request in place. The definitions above give the
  request by value, as it reads when \<^verbatim>\<open>construct_request\<close> returns; that is all the
  errors depend on. The definitions below make the shared object explicit. A store
  holds the contents of the dict objects that the caller keeps, by address.
\<close>

type_synonym addr = nat

type_synonym store = "addr \<Rightarrow> (string \<times> pyval) list"

text \<open>
  The request as an object: its entries by value, and the address of the dict object
  that stands under \<^verbatim>\<open>headers\<close> when that object is the caller's. The request read by
  value takes the headers from the store.
\<close>

record shared_request =
  snapshot :: request
  shared_headers :: "addr option"

definition read_request :: "store \<Rightarrow> shared_request \<Rightarrow> request" where
  "read_request s hr =
     (case shared_headers hr of
        None \<Rightarrow> snapshot hr
      | Some a \<Rightarrow> dict_set ''headers'' (PDict (s a)) (snapshot hr))"

text \<open>
  Modelled from the spec: \<^verbatim>\<open>marshal_param\<close> mutates the request in place. With the
  marshaller \<open>mp\<close> saying what the request reads after the call, a dict under
  \<^verbatim>\<open>headers\<close> is then the new content of the shared object; a marshaller that puts
  something else under the key ends the sharing.
\<close>

definition marshal_param_in_place ::
  "marshaller \<Rightarrow> param \<Rightarrow> pyval \<Rightarrow> shared_request \<Rightarrow> store \<Rightarrow> shared_request \<times> store" where
  "marshal_param_in_place mp p v hr s =
     (let request' = mp p v (read_request s hr) in
      case shared_headers hr of
        None \<Rightarrow> (\<lparr>snapshot = request', shared_headers = None\<rparr>, s)
      | Some a \<Rightarrow>
          (case map_of request' ''headers'' of
             Some (PDict d) \<Rightarrow> (\<lparr>snapshot = request', shared_headers = Some a\<rparr>, s(a := d))
           | other \<Rightarrow> (\<lparr>snapshot = request', shared_headers = None\<rparr>, s)))"

text \<open>
  The two loops of \<^verbatim>\<open>construct_params\<close> again, with the store passed along: an
  exception leaves the store as the marshalling before it made it.
\<close>

fun marshal_supplied_in_place ::
  "marshaller \<Rightarrow> string \<Rightarrow> (string \<times> param) list \<Rightarrow> kwargs \<Rightarrow> shared_request \<Rightarrow> store \<Rightarrow>
   (exn + ((string \<times> param) list \<times> shared_request)) \<times> store" where
  "marshal_supplied_in_place mp opid current_params [] hr s = (Inr (current_params, hr), s)"
| "marshal_supplied_in_place mp opid current_params ((param_name, param_value) # op_kwargs) hr s =
     (case dict_pop param_name current_params of
        (None, _) \<Rightarrow>
          (Inl (SwaggerMappingError (opid @ '' does not have parameter '' @ param_name)), s)
      | (Some p, remaining) \<Rightarrow>
          (case marshal_param_in_place mp p param_value hr s of
             (hr', s') \<Rightarrow> marshal_supplied_in_place mp opid remaining op_kwargs hr' s'))"

fun check_remaining_in_place ::
  "marshaller \<Rightarrow> param list \<Rightarrow> shared_request \<Rightarrow> store \<Rightarrow> (exn + shared_request) \<times> store" where
  "check_remaining_in_place mp [] hr s = (Inr hr, s)"
| "check_remaining_in_place mp (remaining_param # ps) hr s =
     (if required remaining_param
      then (Inl (SwaggerMappingError (name remaining_param @ '' is a required parameter'')), s)
      else if \<not> required remaining_param \<and> has_default remaining_param
      then (case marshal_param_in_place mp remaining_param PNone hr s of
              (hr', s') \<Rightarrow> check_remaining_in_place mp ps hr' s')
      else check_remaining_in_place mp ps hr s)"

definition construct_params_in_place ::
  "marshaller \<Rightarrow> operation \<Rightarrow> shared_request \<Rightarrow> kwargs \<Rightarrow> store \<Rightarrow> (exn + shared_request) \<times> store" where
  "construct_params_in_place mp op hr op_kwargs s =
     (let current_params = params op in
      case marshal_supplied_in_place mp (operation_id op) current_params op_kwargs hr s of
        (Inl e, s') \<Rightarrow> (Inl e, s')
      | (Inr (current_params', hr'), s') \<Rightarrow>
          check_remaining_in_place mp (map snd current_params') hr' s')"

text \<open>
  \<^verbatim>\<open>construct_request\<close> from the pop of the reserved key on: \<open>op_kwargs\<close> are the
  keyword arguments that are left, \<open>request_options\<close> the entries of the popped dict by
  value, and \<open>headers_object\<close> the address of the dict object under its key
  \<^verbatim>\<open>headers\<close> when the caller keeps that object (then it is read from the store).
\<close>

definition options_by_value ::
  "store \<Rightarrow> addr option \<Rightarrow> (string \<times> pyval) list \<Rightarrow> (string \<times> pyval) list" where
  "options_by_value s headers_object request_options =
     (case headers_object of
        None \<Rightarrow> request_options
      | Some a \<Rightarrow> (''headers'', PDict (s a)) # request_options)"

definition construct_request_shared ::
  "marshaller \<Rightarrow> operation \<Rightarrow> kwargs \<Rightarrow> addr option \<Rightarrow> (string \<times> pyval) list \<Rightarrow> store \<Rightarrow>
   (exn + shared_request) \<times> store" where
  "construct_request_shared mp op op_kwargs headers_object request_options s =
     construct_params_in_place mp op
       \<lparr>snapshot = initial_request op (options_by_value s headers_object request_options),
        shared_headers = headers_object\<rparr>
       op_kwargs s"

text \<open>
  What the caller holds after the call, read by value in the store that the call left:
  the exception, or the returned request.
\<close>

definition returned_by_value :: "(exn + shared_request) \<times> store \<Rightarrow> exn + request" where
  "returned_by_value out =
     (case out of
        (Inl e, s) \<Rightarrow> Inl e
      | (Inr hr, s) \<Rightarrow> Inr (read_request s hr))"

section \<open>Client construction\<close>

text \<open>
  \<^verbatim>\<open>bitjws.PrivateKey\<close>, with the attribute \<^verbatim>\<open>private_key\<close> (the raw key) that the
  client reads; and the argument \<^verbatim>\<open>privkey\<close>, which is \<^verbatim>\<open>None\<close>, a \<^verbatim>\<open>str\<close> in
  wallet import format, or a key object.
\<close>

record key_object =
  private_key :: string

datatype privkey_arg = WIF string | KeyObject key_object

text \<open>
  Modelled from the spec: \<^verbatim>\<open>BitJWSRequestsClient\<close> lives in
  \<^verbatim>\<open>bravado_bitjws/requests_client.py\<close>, which is not among the sources. It is the
  signing transport: a new one holds no key; \<^verbatim>\<open>set_bitjws_key(host, wif)\<close> registers
  the signing key for a destination host, and registering again for the same host
  replaces the prior mapping. A transport supplied by the caller is any other
  \<^verbatim>\<open>HttpClient\<close>, or a signing transport with the keys it already has.
\<close>

datatype 'h http_client =
    CustomClient 'h
  | BitJWSRequestsClient "(string option \<times> string) list"

text \<open>
  Modelled from the spec: \<^verbatim>\<open>set_bitjws_key(host, wif)\<close> of the signing transport,
  on its registry from host to key: one key per host, the later registration replacing
  the earlier.
\<close>

fun set_bitjws_key ::
  "string option \<Rightarrow> string \<Rightarrow> (string option \<times> string) list \<Rightarrow> (string option \<times> string) list" where
  "set_bitjws_key host wif [] = [(host, wif)]"
| "set_bitjws_key host wif ((h, k) # keys) =
     (if h = host then (host, wif) # keys else (h, k) # set_bitjws_key host wif keys)"

datatype decorator = BitJWSResourceDecorator | CustomDecorator string

text \<open>
  The functions of the libraries that client construction calls, none of them in the
  sources; they are parameters of the model. \<open>wif_to_privkey\<close>, \<open>new_PrivateKey\<close>
  (the constructor \<^verbatim>\<open>bitjws.PrivateKey(raw)\<close>) and \<open>privkey_to_wif\<close> are of bitjws;
  \<open>urlsplit_hostname\<close> is \<^verbatim>\<open>urlparse.urlsplit(url).hostname\<close>; \<open>load_spec\<close> is
  \<^verbatim>\<open>Loader(http_client, request_headers=request_headers).load_spec(spec_url)\<close>;
  \<open>Spec_from_dict\<close> is \<^verbatim>\<open>Spec.from_dict\<close> of bravado_core. Each may raise.
\<close>

record ('h, 's) libraries =
  wif_to_privkey :: "string \<Rightarrow> exn + string"
  new_PrivateKey :: "string \<Rightarrow> exn + key_object"
  privkey_to_wif :: "string \<Rightarrow> string"
  urlsplit_hostname :: "string option \<Rightarrow> exn + string option"
  load_spec :: "'h http_client \<Rightarrow> pyval \<Rightarrow> string \<Rightarrow> exn + pyval"
  Spec_from_dict :: "pyval \<Rightarrow> string option \<Rightarrow> 'h http_client \<Rightarrow> pyval \<Rightarrow> exn + 's"

text \<open>
  The client that \<^verbatim>\<open>cls(swagger_spec, resource_decorator)\<close> builds.
\<close>

record 's swagger_client =
  swagger_spec :: 's
  resource_decorator :: decorator

text \<open>
  The first statement of \<^verbatim>\<open>from_url\<close> and of \<^verbatim>\<open>from_spec\<close>, the same in both:
  no key gives a fresh one (\<^verbatim>\<open>bitjws.PrivateKey()\<close>; \<open>fresh\<close> is the key that the
  generator yields in this run), a string is decoded, a key object is kept.
\<close>

definition resolve_privkey ::
  "('h, 's) libraries \<Rightarrow> key_object \<Rightarrow> privkey_arg option \<Rightarrow> exn + key_object" where
  "resolve_privkey lib fresh privkey =
     (case privkey of
        None \<Rightarrow> Inr fresh
      | Some (WIF s) \<Rightarrow>
          (case wif_to_privkey lib s of Inl e \<Rightarrow> Inl e | Inr raw \<Rightarrow> new_PrivateKey lib raw)
      | Some (KeyObject k) \<Rightarrow> Inr k)"

text \<open>
  The second statement of both: without a transport from the caller, the host of the
  URL is resolved, a signing transport is made and the key registered for the host; a
  transport from the caller is taken as it is. (The debug log line that opens
  \<^verbatim>\<open>from_url\<close> has no effect on the result and is left out.)
\<close>

definition choose_http_client ::
  "('h, 's) libraries \<Rightarrow> string option \<Rightarrow> key_object \<Rightarrow> 'h http_client option \<Rightarrow>
   exn + 'h http_client" where
  "choose_http_client lib url privkey http_client =
     (case http_client of
        None \<Rightarrow>
          (case urlsplit_hostname lib url of
             Inl e \<Rightarrow> Inl e
           | Inr host \<Rightarrow>
               Inr (BitJWSRequestsClient
                      (set_bitjws_key host (privkey_to_wif lib (private_key privkey)) [])))
      | Some h \<Rightarrow> Inr h)"

definition from_spec ::
  "('h, 's) libraries \<Rightarrow> key_object \<Rightarrow> pyval \<Rightarrow> string option \<Rightarrow> 'h http_client option \<Rightarrow>
   pyval \<Rightarrow> decorator option \<Rightarrow> privkey_arg option \<Rightarrow> exn + 's swagger_client" where
  "from_spec lib fresh spec_dict origin_url http_client config rdecorator privkey =
     (case resolve_privkey lib fresh privkey of
        Inl e \<Rightarrow> Inl e
      | Inr pk \<Rightarrow>
          (case choose_http_client lib origin_url pk http_client of
             Inl e \<Rightarrow> Inl e
           | Inr hc \<Rightarrow>
               (let rd = (case rdecorator of None \<Rightarrow> BitJWSResourceDecorator | Some d \<Rightarrow> d) in
                case Spec_from_dict lib spec_dict origin_url hc config of
                  Inl e \<Rightarrow> Inl e
                | Inr spec \<Rightarrow> Inr \<lparr>swagger_spec = spec, resource_decorator = rd\<rparr>)))"

definition from_url ::
  "('h, 's) libraries \<Rightarrow> key_object \<Rightarrow> string \<Rightarrow> 'h http_client option \<Rightarrow> pyval \<Rightarrow>
   pyval \<Rightarrow> decorator option \<Rightarrow> privkey_arg option \<Rightarrow> exn + 's swagger_client" where
  "from_url lib fresh spec_url http_client request_headers config rdecorator privkey =
     (case resolve_privkey lib fresh privkey of
        Inl e \<Rightarrow> Inl e
      | Inr pk \<Rightarrow>
          (case choose_http_client lib (Some spec_url) pk http_client of
             Inl e \<Rightarrow> Inl e
           | Inr hc \<Rightarrow>
               (case load_spec lib hc request_headers spec_url of
                  Inl e \<Rightarrow> Inl e
                | Inr spec_dict \<Rightarrow>
                    from_spec lib fresh spec_dict (Some spec_url) (Some hc) config rdecorator
                      (Some (KeyObject pk)))))"

section \<open>Notions used in the statements\<close>

text \<open>
  The keyword arguments as the caller means them: the value under the reserved key is a
  dict of request options, when the key is there (\<open>request_options_ok\<close>);
  \<open>request_options_of\<close> is that dict, or \<^verbatim>\<open>{}\<close>; \<open>named_kwargs\<close> are the other
  keyword arguments, the ones that name parameters.
\<close>

definition request_options_ok :: "kwargs \<Rightarrow> bool" where
  "request_options_ok op_kwargs =
     (case map_of op_kwargs ''_request_options'' of
        None \<Rightarrow> True
      | Some (PDict d) \<Rightarrow> True
      | Some other \<Rightarrow> False)"

definition request_options_of :: "kwargs \<Rightarrow> (string \<times> pyval) list" where
  "request_options_of op_kwargs =
     (case map_of op_kwargs ''_request_options'' of
        Some (PDict d) \<Rightarrow> d
      | other \<Rightarrow> [])"

definition named_kwargs :: "kwargs \<Rightarrow> kwargs" where
  "named_kwargs op_kwargs = filter (\<lambda>kv. fst kv \<noteq> ''_request_options'') op_kwargs"

text \<open>
  A message names a keyword when the keyword occurs in it.
\<close>

fun occurs_in :: "string \<Rightarrow> string \<Rightarrow> bool" where
  "occurs_in k [] = (k = [])"
| "occurs_in k (c # cs) = (take (length k) (c # cs) = k \<or> occurs_in k cs)"

text \<open>
  A marshaller leaves a key of the request alone, for the parameters of an operation.
\<close>

definition leaves_key :: "marshaller \<Rightarrow> operation \<Rightarrow> string \<Rightarrow> bool" where
  "leaves_key mp op k =
     (\<forall>p \<in> snd ` set (params op). \<forall>v r. map_of (mp p v r) k = map_of r k)"

section \<open>A concrete operation\<close>

text \<open>
  An operation \<^verbatim>\<open>getWidget\<close> with a required query parameter, an optional one
  with a default and an optional header, and three documented responses; a marshaller
  that places a value in the request dict under the parameter's location, the default
  for the value \<^verbatim>\<open>None\<close>; an unmarshaller that returns the body. The theorems below
  are evaluated on them.
\<close>

definition example_operation :: operation where
  "example_operation =
     \<lparr>operation_id = ''getWidget'', http_method = ''get'', path_name = ''/widget'',
      api_url = ''http://example.org/api/'',
      params =
        [(''id'', \<lparr>name = ''id'', location = ''params'', required = True, default_value = None\<rparr>),
         (''limit'', \<lparr>name = ''limit'', location = ''params'', required = False,
                      default_value = Some (PInt 10)\<rparr>),
         (''X-Trace'', \<lparr>name = ''X-Trace'', location = ''headers'', required = False,
                        default_value = None\<rparr>)],
      responses = map_of [(200, ''Widget''), (400, ''Error''), (503, ''Unavailable'')],
      deprecated = False\<rparr>"

definition example_marshal :: marshaller where
  "example_marshal p v request =
     (let placed = (case (v, default_value p) of (PNone, Some d) \<Rightarrow> d | _ \<Rightarrow> v) in
      case map_of request (location p) of
        Some (PDict d) \<Rightarrow> dict_set (location p) (PDict (dict_set (name p) placed d)) request
      | _ \<Rightarrow> request)"

definition example_unmarshal :: "schema \<Rightarrow> incoming_response \<Rightarrow> pyval" where
  "example_unmarshal sch r = body r"

definition example_diag :: "incoming_response \<Rightarrow> operation \<Rightarrow> string" where
  "example_diag r op = ''no matching response for '' @ operation_id op"

definition example_response :: "int \<Rightarrow> string \<Rightarrow> pyval \<Rightarrow> incoming_response" where
  "example_response sc rs b = \<lparr>status_code = sc, reason = rs, body = b\<rparr>"

text \<open>
  Libraries for client construction that decode every string but \<^verbatim>\<open>bad\<close> as a key,
  load a fixed document, and build as specification the tuple of the arguments that
  \<^verbatim>\<open>Spec.from_dict\<close> was given. The host resolver is not reached when the caller
  supplies the transport.
\<close>

definition example_libraries ::
  "(string, pyval \<times> string option \<times> string http_client \<times> pyval) libraries" where
  "example_libraries =
     \<lparr>wif_to_privkey = (\<lambda>s. if s = ''bad'' then Inl (LibraryError ''invalid key'') else Inr s),
      new_PrivateKey = (\<lambda>raw. Inr \<lparr>private_key = raw\<rparr>),
      privkey_to_wif = (\<lambda>raw. raw),
      urlsplit_hostname = (\<lambda>u. Inl (LibraryError ''host resolution'')),
      load_spec = (\<lambda>hc rh u. Inr (PDict [(''swagger'', PStr ''2.0'')])),
      Spec_from_dict = (\<lambda>sd ou hc cfg. Inr (sd, ou, hc, cfg))\<rparr>"

text \<open>
  A second operation, \<^verbatim>\<open>createWidget\<close>, with another method and an optional header
  parameter; a store in which the caller's headers dict is the object at address 0;
  a store that agrees with it there and nowhere else; and the store that a call of
  \<^verbatim>\<open>construct_request\<close> with the header parameter supplied leaves behind.
\<close>

definition example_create_operation :: operation where
  "example_create_operation =
     \<lparr>operation_id = ''createWidget'', http_method = ''post'', path_name = ''/widgets'',
      api_url = ''http://example.org/api//'',
      params =
        [(''colour'', \<lparr>name = ''colour'', location = ''params'', required = True,
                       default_value = None\<rparr>),
         (''X-Trace'', \<lparr>name = ''X-Trace'', location = ''headers'', required = False,
                        default_value = None\<rparr>)],
      responses = map_of [(201, ''Widget'')],
      deprecated = False\<rparr>"

definition example_store :: store where
  "example_store = (\<lambda>a. if a = 0 then [(''Accept'', PStr ''application/json'')] else [])"

definition example_other_store :: store where
  "example_other_store =
     (\<lambda>a. if a = 0 then [(''Accept'', PStr ''application/json'')] else [(''other'', PNone)])"

definition example_store_after_traced_call :: store where
  "example_store_after_traced_call =
     snd (construct_request_shared example_marshal example_create_operation
            [(''colour'', PStr ''red''), (''X-Trace'', PStr ''abc'')] (Some 0) [] example_store)"

section \<open>Properties of the response triage\<close>

lemma raise_on_unexpected_None:
  "\<not> (500 \<le> status_code r \<and> status_code r \<le> 599) \<Longrightarrow> raise_on_unexpected r = None"
  by (simp add: raise_on_unexpected_def)

lemma unmarshal_response_declared:
  "responses op (status_code r) = Some sch \<Longrightarrow>
   unmarshal_response um diag r op = Inr (um sch r)"
  by (simp add: unmarshal_response_def)

lemma unmarshal_response_undeclared:
  "responses op (status_code r) = None \<Longrightarrow>
   unmarshal_response um diag r op = Inl (MatchingResponseNotFound (diag r op))"
  by (simp add: unmarshal_response_def)

text \<open>
  C1. A response whose status code is in the success range 200..299 and has a schema
  declared for it in the operation's response map: the callback returns the value that
  the unmarshaller yields for that schema, as it is.
\<close>

theorem success_returns_unmarshalled_value:
  assumes "200 \<le> status_code r" and "status_code r \<le> 299"
    and "responses op (status_code r) = Some sch"
  shows "bitjws_response_callback um diag r op = Inr (um sch r)"
proof -
  have "raise_on_unexpected r = None"
    using assms(2) by (simp add: raise_on_unexpected_def)
  moreover have "unmarshal_response um diag r op = Inr (um sch r)"
    using assms(3) by (rule unmarshal_response_declared)
  moreover have "raise_on_expected r (um sch r) = None"
    using assms(1,2) by (simp add: raise_on_expected_def)
  ultimately show ?thesis
    by (simp add: bitjws_response_callback_def)
qed

theorem success_returns_unmarshalled_value_witness:
  "bitjws_response_callback example_unmarshal example_diag
     (example_response 200 ''OK'' (PDict [(''id'', PInt 5)])) example_operation
   = Inr (PDict [(''id'', PInt 5)])"
  using success_returns_unmarshalled_value
    [of "example_response 200 ''OK'' (PDict [(''id'', PInt 5)])" example_operation "''Widget''"
        example_unmarshal example_diag]
  by (simp add: example_response_def example_operation_def example_unmarshal_def)

text \<open>
  C2. A response whose status code is in the server-error class 500..599: the callback
  fails with the HTTPError that carries the response (status and reason) and neither a
  message nor a payload. The response map, the unmarshaller and the diagnostic do not
  occur in the result: a schema declared for the status code changes nothing.
\<close>

theorem server_error_is_minimal_http_error:
  assumes "500 \<le> status_code r" and "status_code r \<le> 599"
  shows "bitjws_response_callback um diag r op = Inl (HTTPError r None None)"
  using assms by (simp add: bitjws_response_callback_def raise_on_unexpected_def)

theorem server_error_is_minimal_http_error_witness:
  "responses example_operation 503 = Some ''Unavailable'' \<and>
   bitjws_response_callback example_unmarshal example_diag
     (example_response 503 ''Service Unavailable'' (PDict [(''retry'', PInt 30)]))
     example_operation
   = Inl (HTTPError \<lparr>status_code = 503, reason = ''Service Unavailable'',
                     body = PDict [(''retry'', PInt 30)]\<rparr> None None)"
  using server_error_is_minimal_http_error
    [of "example_response 503 ''Service Unavailable'' (PDict [(''retry'', PInt 30)])"
        example_unmarshal example_diag example_operation]
  by (simp add: example_response_def example_operation_def)

text \<open>
  C5, as stated, fails for a documented 5XX response: status 503 is outside the success
  range and has a declared schema, and the error carries no payload.
\<close>

theorem documented_error_payload_counterexample:
  "\<not> (200 \<le> status_code (example_response 503 ''Service Unavailable'' (PDict [(''retry'', PInt 30)]))
      \<and> status_code (example_response 503 ''Service Unavailable'' (PDict [(''retry'', PInt 30)])) \<le> 299) \<and>
   responses example_operation
     (status_code (example_response 503 ''Service Unavailable'' (PDict [(''retry'', PInt 30)])))
     = Some ''Unavailable'' \<and>
   bitjws_response_callback example_unmarshal example_diag
     (example_response 503 ''Service Unavailable'' (PDict [(''retry'', PInt 30)]))
     example_operation
   = Inl (HTTPError (example_response 503 ''Service Unavailable'' (PDict [(''retry'', PInt 30)]))
           None None) \<and>
   bitjws_response_callback example_unmarshal example_diag
     (example_response 503 ''Service Unavailable'' (PDict [(''retry'', PInt 30)]))
     example_operation
   \<noteq> Inl (HTTPError (example_response 503 ''Service Unavailable'' (PDict [(''retry'', PInt 30)])) None
           (Some (example_unmarshal ''Unavailable''
              (example_response 503 ''Service Unavailable'' (PDict [(''retry'', PInt 30)])))))"
  by (simp add: example_response_def example_operation_def example_unmarshal_def
      bitjws_response_callback_def raise_on_unexpected_def)

text \<open>
  C5, amended. A response whose status code is outside the success range 200..299 and
  outside the server-error class 500..599, and has a schema declared for it: the
  callback fails with an HTTPError whose payload is the value that the unmarshaller
  yields for that schema.
\<close>

theorem documented_error_carries_payload:
  assumes "\<not> (200 \<le> status_code r \<and> status_code r \<le> 299)"
    and "\<not> (500 \<le> status_code r \<and> status_code r \<le> 599)"
    and "responses op (status_code r) = Some sch"
  shows "bitjws_response_callback um diag r op = Inl (HTTPError r None (Some (um sch r)))"
proof -
  have "raise_on_unexpected r = None"
    using assms(2) by (rule raise_on_unexpected_None)
  moreover have "unmarshal_response um diag r op = Inr (um sch r)"
    using assms(3) by (rule unmarshal_response_declared)
  moreover have "raise_on_expected r (um sch r) = Some (HTTPError r None (Some (um sch r)))"
    using assms(1) by (simp add: raise_on_expected_def)
  ultimately show ?thesis
    by (simp add: bitjws_response_callback_def)
qed

theorem documented_error_carries_payload_witness:
  "bitjws_response_callback example_unmarshal example_diag
     (example_response 400 ''Bad Request'' (PDict [(''reason'', PStr ''bad input'')]))
     example_operation
   = Inl (HTTPError \<lparr>status_code = 400, reason = ''Bad Request'',
                     body = PDict [(''reason'', PStr ''bad input'')]\<rparr> None
           (Some (PDict [(''reason'', PStr ''bad input'')])))"
  using documented_error_carries_payload
    [of "example_response 400 ''Bad Request'' (PDict [(''reason'', PStr ''bad input'')])"
        example_operation "''Error''" example_unmarshal example_diag]
  by (simp add: example_response_def example_operation_def example_unmarshal_def)

text \<open>
  C6. A response whose status code is outside the server-error class and outside the
  success range, with no schema declared for it: the unmarshaller raises its "no
  matching response" condition, and the callback fails with an HTTPError whose message
  is the text of that condition, not with the condition itself.
\<close>

theorem undocumented_status_is_detailed_http_error:
  assumes "\<not> (500 \<le> status_code r \<and> status_code r \<le> 599)"
    and "\<not> (200 \<le> status_code r \<and> status_code r \<le> 299)"
    and "responses op (status_code r) = None"
  shows "unmarshal_response um diag r op = Inl (MatchingResponseNotFound (diag r op)) \<and>
         bitjws_response_callback um diag r op = Inl (HTTPError r (Some (diag r op)) None)"
proof -
  have "raise_on_unexpected r = None"
    using assms(1) by (rule raise_on_unexpected_None)
  moreover have u: "unmarshal_response um diag r op = Inl (MatchingResponseNotFound (diag r op))"
    using assms(3) by (rule unmarshal_response_undeclared)
  ultimately show ?thesis
    by (simp add: bitjws_response_callback_def)
qed

theorem undocumented_status_is_detailed_http_error_witness:
  "bitjws_response_callback example_unmarshal example_diag
     (example_response 404 ''Not Found'' PNone) example_operation
   = Inl (HTTPError \<lparr>status_code = 404, reason = ''Not Found'', body = PNone\<rparr>
            (Some ''no matching response for getWidget'') None)"
  using undocumented_status_is_detailed_http_error
    [of "example_response 404 ''Not Found'' PNone" example_operation
        example_unmarshal example_diag]
  by (simp add: example_response_def example_operation_def example_diag_def)

section \<open>Properties of request construction\<close>

subsection \<open>Dicts\<close>

lemma map_of_without_key:
  "k' \<noteq> k \<Longrightarrow> map_of (filter (\<lambda>kv. fst kv \<noteq> k) d) k' = map_of d k'"
  by (induction d) auto

lemma map_of_dict_set:
  "map_of (dict_set k v d) k' = (if k' = k then Some v else map_of d k')"
  by (induction d) auto

lemma map_of_None_iff_undeclared:
  "(map_of d k = None) = (k \<notin> fst ` set d)"
  by (simp add: map_of_eq_None_iff)

lemma occurs_in_self: "occurs_in k k"
  by (cases k) simp_all

lemma occurs_in_suffix: "occurs_in k (pre @ k)"
  by (induction pre) (simp_all add: occurs_in_self)

subsection \<open>The reserved key\<close>

lemma construct_request_options_ok:
  assumes "request_options_ok kw"
  shows "construct_request mp op kw =
         construct_params mp op (initial_request op (request_options_of kw)) (named_kwargs kw)"
  using assms
  by (auto simp: construct_request_def dict_pop_def request_options_ok_def
      request_options_of_def named_kwargs_def split: option.splits pyval.splits)

lemma named_kwargs_keys:
  "fst ` set (named_kwargs kw) = fst ` set kw - {''_request_options''}"
  by (auto simp: named_kwargs_def)

lemma named_kwargs_distinct:
  "distinct (map fst kw) \<Longrightarrow> distinct (map fst (named_kwargs kw))"
  by (simp add: named_kwargs_def distinct_map_filter)

subsection \<open>The loop over the keyword arguments\<close>

text \<open>
  The loop fails at the first keyword that is not a key of the parameters, and names
  it; the keywords before it are keys, each met once.
\<close>

lemma marshal_supplied_first_unknown:
  assumes "distinct (map fst (pre @ (k, v) # post))"
    and "\<forall>n \<in> fst ` set pre. n \<in> fst ` set cur"
    and "k \<notin> fst ` set cur"
  shows "marshal_supplied mp opid cur (pre @ (k, v) # post) req =
         Inl (SwaggerMappingError (opid @ '' does not have parameter '' @ k))"
  using assms
proof (induction pre arbitrary: cur req)
  case Nil
  then have "map_of cur k = None"
    by (simp add: map_of_None_iff_undeclared)
  then show ?case
    by (simp add: dict_pop_def)
next
  case (Cons a pre)
  obtain n x where a: "a = (n, x)"
    by (cases a)
  from Cons.prems(2) a have "n \<in> fst ` set cur"
    by simp
  then obtain p where p: "map_of cur n = Some p"
    by (meson map_of_None_iff_undeclared not_Some_eq)
  let ?cur = "filter (\<lambda>kv. fst kv \<noteq> n) cur"
  from Cons.prems(1) a have d: "distinct (map fst (pre @ (k, v) # post))"
    and nk: "n \<noteq> k" and npre: "n \<notin> fst ` set pre"
    by auto
  have "\<forall>m \<in> fst ` set pre. m \<in> fst ` set ?cur"
    using Cons.prems(2) npre by force
  moreover have "k \<notin> fst ` set ?cur"
    using Cons.prems(3) by auto
  ultimately have
    "marshal_supplied mp opid ?cur (pre @ (k, v) # post) (mp p x req) =
     Inl (SwaggerMappingError (opid @ '' does not have parameter '' @ k))"
    using Cons.IH d by blast
  then show ?case
    using a p by (simp add: dict_pop_def)
qed

text \<open>
  Whatever the keyword arguments, the loop ends in a mapping error or leaves exactly
  the parameters that no keyword named.
\<close>

lemma marshal_supplied_cases:
  "(\<exists>msg. marshal_supplied mp opid cur kw req = Inl (SwaggerMappingError msg)) \<or>
   (\<exists>req'. marshal_supplied mp opid cur kw req =
      Inr (filter (\<lambda>kv. fst kv \<notin> fst ` set kw) cur, req'))"
proof (induction kw arbitrary: cur req)
  case Nil
  show ?case by simp
next
  case (Cons a kw)
  obtain n x where a: "a = (n, x)"
    by (cases a)
  show ?case
  proof (cases "map_of cur n")
    case None
    then show ?thesis
      using a by (simp add: dict_pop_def)
  next
    case (Some p)
    let ?cur = "filter (\<lambda>kv. fst kv \<noteq> n) cur"
    have f: "filter (\<lambda>kv. fst kv \<notin> fst ` set kw) ?cur =
             filter (\<lambda>kv. fst kv \<notin> fst ` set (a # kw)) cur"
      using a by (auto intro: filter_cong)
    from Cons.IH [of ?cur "mp p x req"] show ?thesis
      using a Some f by (simp add: dict_pop_def)
  qed
qed

text \<open>
  When every keyword is the key of a parameter, the loop marshals the values in the
  order of the keyword arguments.
\<close>

lemma marshal_supplied_all_declared:
  assumes "distinct (map fst kw)"
    and "\<forall>n \<in> fst ` set kw. n \<in> fst ` set cur"
  shows "marshal_supplied mp opid cur kw req =
         Inr (filter (\<lambda>kv. fst kv \<notin> fst ` set kw) cur,
              foldl (\<lambda>r kv. mp (the (map_of cur (fst kv))) (snd kv) r) req kw)"
  using assms
proof (induction kw arbitrary: cur req)
  case Nil
  show ?case by simp
next
  case (Cons a kw)
  obtain n x where a: "a = (n, x)"
    by (cases a)
  from Cons.prems(2) a have "n \<in> fst ` set cur"
    by simp
  then obtain p where p: "map_of cur n = Some p"
    by (meson map_of_None_iff_undeclared not_Some_eq)
  let ?cur = "filter (\<lambda>kv. fst kv \<noteq> n) cur"
  from Cons.prems(1) a have d: "distinct (map fst kw)" and nkw: "n \<notin> fst ` set kw"
    by auto
  have sub: "\<forall>m \<in> fst ` set kw. m \<in> fst ` set ?cur"
    using Cons.prems(2) nkw by force
  have f: "filter (\<lambda>kv. fst kv \<notin> fst ` set kw) ?cur =
           filter (\<lambda>kv. fst kv \<notin> fst ` set (a # kw)) cur"
    using a by (auto intro: filter_cong)
  have g: "foldl (\<lambda>r kv. mp (the (map_of ?cur (fst kv))) (snd kv) r) (mp p x req) kw =
           foldl (\<lambda>r kv. mp (the (map_of cur (fst kv))) (snd kv) r) (mp p x req) kw"
  proof (rule foldl_cong)
    fix r kv
    assume "kv \<in> set kw"
    then have "fst kv \<noteq> n"
      using nkw by auto
    then show "mp (the (map_of ?cur (fst kv))) (snd kv) r =
               mp (the (map_of cur (fst kv))) (snd kv) r"
      by (simp add: map_of_without_key)
  qed simp_all
  from Cons.IH [OF d sub, of "mp p x req"] show ?case
    using a p f g by (simp add: dict_pop_def)
qed

subsection \<open>The loop over the remaining parameters\<close>

lemma check_remaining_required:
  assumes "\<exists>p \<in> set ps. required p"
  shows "\<exists>msg. check_remaining mp ps req = Inl (SwaggerMappingError msg)"
  using assms by (induction ps arbitrary: req) auto

text \<open>
  The loop names the first required parameter that is left.
\<close>

lemma check_remaining_first_required:
  assumes "\<forall>q \<in> set pre. \<not> required q" and "required p"
  shows "check_remaining mp (pre @ p # post) req =
         Inl (SwaggerMappingError (name p @ '' is a required parameter''))"
  using assms by (induction pre arbitrary: req) auto

lemma check_remaining_none_required:
  assumes "\<forall>p \<in> set ps. \<not> required p"
  shows "check_remaining mp ps req =
         Inr (foldl (\<lambda>r p. if has_default p then mp p PNone r else r) req ps)"
  using assms by (induction ps arbitrary: req) auto

subsection \<open>The call\<close>

lemma call_operation_failure:
  assumes "construct_request mp op kw = Inl e"
  shows "fst (call_operation mp op kw w) = Inl e \<and> sent (snd (call_operation mp op kw w)) = sent w"
  using assms by (simp add: call_operation_def warn_for_deprecated_op_def Let_def)

lemma call_operation_success:
  assumes "construct_request mp op kw = Inr request"
  shows "fst (call_operation mp op kw w) = Inr (HTTPFuture request) \<and>
         sent (snd (call_operation mp op kw w)) = sent w @ [request]"
  using assms
  by (simp add: call_operation_def warn_for_deprecated_op_def http_client_request_def Let_def)

subsection \<open>The request before the parameters are marshalled\<close>

lemma initial_request_lookup:
  assumes "k \<noteq> ''connect_timeout''" and "k \<noteq> ''timeout''"
  shows "map_of (initial_request op opts) k =
         map_of [(''method'', PStr (upper (http_method op))),
                 (''url'', PStr (rstrip_slash (api_url op) @ path_name op)),
                 (''params'', PDict []),
                 (''headers'', (case map_of opts ''headers'' of Some h \<Rightarrow> h | None \<Rightarrow> PDict []))] k"
  using assms
  by (simp add: initial_request_def copy_request_options_def map_of_dict_set Let_def
      split: option.splits)

subsection \<open>Failures and results of construct_request\<close>

text \<open>
  C3. Keyword arguments whose reserved key, if present, holds a dict of request options,
  and a parameter of the operation that is required and that no keyword names:
  \<^verbatim>\<open>construct_request\<close> fails with a SwaggerMappingError, whichever parameter it
  is; and the call of the operation fails with the same error and hands no request to
  the transport.
\<close>

theorem missing_required_is_mapping_error:
  assumes "request_options_ok kw"
    and "(n, p) \<in> set (params op)" and "required p" and "n \<notin> fst ` set kw"
  shows "\<exists>msg. construct_request mp op kw = Inl (SwaggerMappingError msg) \<and>
           (\<forall>w. fst (call_operation mp op kw w) = Inl (SwaggerMappingError msg) \<and>
                sent (snd (call_operation mp op kw w)) = sent w)"
proof -
  let ?req = "initial_request op (request_options_of kw)"
  let ?kw = "named_kwargs kw"
  have c: "construct_request mp op kw = construct_params mp op ?req ?kw"
    using assms(1) by (rule construct_request_options_ok)
  have "\<exists>msg. construct_params mp op ?req ?kw = Inl (SwaggerMappingError msg)"
    using marshal_supplied_cases [of mp "operation_id op" "params op" ?kw ?req]
  proof
    assume "\<exists>msg. marshal_supplied mp (operation_id op) (params op) ?kw ?req =
              Inl (SwaggerMappingError msg)"
    then show ?thesis
      by (auto simp: construct_params_def)
  next
    assume "\<exists>req'. marshal_supplied mp (operation_id op) (params op) ?kw ?req =
              Inr (filter (\<lambda>kv. fst kv \<notin> fst ` set ?kw) (params op), req')"
    then obtain req' where m: "marshal_supplied mp (operation_id op) (params op) ?kw ?req =
        Inr (filter (\<lambda>kv. fst kv \<notin> fst ` set ?kw) (params op), req')"
      by blast
    have "n \<notin> fst ` set ?kw"
      using assms(4) by (simp add: named_kwargs_keys)
    then have "(n, p) \<in> set (filter (\<lambda>kv. fst kv \<notin> fst ` set ?kw) (params op))"
      using assms(2) by simp
    then have "\<exists>q \<in> set (map snd (filter (\<lambda>kv. fst kv \<notin> fst ` set ?kw) (params op))). required q"
      using assms(3) by force
    then show ?thesis
      using m check_remaining_required by (simp add: construct_params_def)
  qed
  then obtain msg where "construct_request mp op kw = Inl (SwaggerMappingError msg)"
    using c by auto
  then show ?thesis
    using call_operation_failure by blast
qed

theorem missing_required_is_mapping_error_witness:
  "construct_request example_marshal example_operation [(''limit'', PInt 3)]
     = Inl (SwaggerMappingError ''id is a required parameter'') \<and>
   (\<exists>msg. \<forall>w. fst (call_operation example_marshal example_operation [(''limit'', PInt 3)] w)
              = Inl (SwaggerMappingError msg) \<and>
            sent (snd (call_operation example_marshal example_operation [(''limit'', PInt 3)] w))
              = sent w)"
proof -
  have "\<exists>msg. construct_request example_marshal example_operation [(''limit'', PInt 3)]
           = Inl (SwaggerMappingError msg) \<and>
         (\<forall>w. fst (call_operation example_marshal example_operation [(''limit'', PInt 3)] w)
              = Inl (SwaggerMappingError msg) \<and>
            sent (snd (call_operation example_marshal example_operation [(''limit'', PInt 3)] w))
              = sent w)"
    by (rule missing_required_is_mapping_error
        [of "[(''limit'', PInt 3)]" "''id''"
            "\<lparr>name = ''id'', location = ''params'', required = True, default_value = None\<rparr>"])
      (simp_all add: request_options_ok_def example_operation_def)
  moreover have "construct_request example_marshal example_operation [(''limit'', PInt 3)]
     = Inl (SwaggerMappingError ''id is a required parameter'')"
    by (simp add: construct_request_def construct_params_def dict_pop_def example_operation_def)
  ultimately show ?thesis
    by blast
qed

text \<open>
  C4, as stated, fails when two keywords are unknown: the error names the first of them
  and not the second.
\<close>

theorem unknown_keyword_counterexample:
  "''bar'' \<in> fst ` set [(''foo'', PInt 1), (''bar'', PInt 2)] \<and>
   ''bar'' \<noteq> ''_request_options'' \<and>
   ''bar'' \<notin> fst ` set (params example_operation) \<and>
   construct_request example_marshal example_operation [(''foo'', PInt 1), (''bar'', PInt 2)]
     = Inl (SwaggerMappingError ''getWidget does not have parameter foo'') \<and>
   \<not> occurs_in ''bar'' ''getWidget does not have parameter foo''"
  by (simp add: construct_request_def construct_params_def dict_pop_def example_operation_def)

text \<open>
  C4, amended. Keyword arguments with distinct keys whose reserved key, if present, holds
  a dict, and among whose other keys one names no parameter of the operation:
  \<^verbatim>\<open>construct_request\<close> fails with a SwaggerMappingError whose message names the
  first keyword, in the order of the keyword arguments, that names no parameter; that
  is the given keyword when it is the only such one.
\<close>

theorem unknown_keyword_is_named:
  assumes "request_options_ok kw" and "distinct (map fst kw)"
    and "k \<in> fst ` set kw" and "k \<noteq> ''_request_options''"
    and "k \<notin> fst ` set (params op)"
  shows "\<exists>pre k' v post.
           named_kwargs kw = pre @ (k', v) # post \<and>
           (\<forall>j \<in> fst ` set pre. j \<in> fst ` set (params op)) \<and>
           k' \<notin> fst ` set (params op) \<and>
           construct_request mp op kw =
             Inl (SwaggerMappingError (operation_id op @ '' does not have parameter '' @ k')) \<and>
           occurs_in k' (operation_id op @ '' does not have parameter '' @ k') \<and>
           ((\<forall>j \<in> fst ` set (named_kwargs kw). j \<notin> fst ` set (params op) \<longrightarrow> j = k) \<longrightarrow> k' = k)"
proof -
  let ?kw = "named_kwargs kw"
  have "k \<in> fst ` set ?kw"
    using assms(3,4) by (simp add: named_kwargs_keys)
  then have "\<exists>kv \<in> set ?kw. fst kv \<notin> fst ` set (params op)"
    using assms(5) by auto
  then obtain pre x post where s: "?kw = pre @ x # post"
    and x: "fst x \<notin> fst ` set (params op)"
    and pre: "\<forall>y \<in> set pre. \<not> fst y \<notin> fst ` set (params op)"
    using split_list_first_prop [of ?kw "\<lambda>kv. fst kv \<notin> fst ` set (params op)"] by blast
  obtain k' v where kv: "x = (k', v)"
    by (cases x)
  have d: "distinct (map fst (pre @ (k', v) # post))"
    using named_kwargs_distinct [OF assms(2)] s kv by simp
  have pre': "\<forall>j \<in> fst ` set pre. j \<in> fst ` set (params op)"
    using pre by auto
  have k': "k' \<notin> fst ` set (params op)"
    using x kv by simp
  have "construct_request mp op kw =
        construct_params mp op (initial_request op (request_options_of kw)) ?kw"
    using assms(1) by (rule construct_request_options_ok)
  also have "\<dots> = Inl (SwaggerMappingError (operation_id op @ '' does not have parameter '' @ k'))"
    using marshal_supplied_first_unknown [OF d pre' k'] s kv
    by (simp add: construct_params_def)
  finally have r: "construct_request mp op kw =
      Inl (SwaggerMappingError (operation_id op @ '' does not have parameter '' @ k'))" .
  have o: "occurs_in k' (operation_id op @ '' does not have parameter '' @ k')"
    using occurs_in_suffix [of k' "operation_id op @ '' does not have parameter ''"] by simp
  have "k' \<in> fst ` set ?kw"
    using s kv by force
  then have only: "(\<forall>j \<in> fst ` set ?kw. j \<notin> fst ` set (params op) \<longrightarrow> j = k) \<longrightarrow> k' = k"
    using k' by blast
  from s kv pre' k' r o only show ?thesis
    by blast
qed

theorem unknown_keyword_is_named_witness:
  "construct_request example_marshal example_operation [(''id'', PInt 5), (''colour'', PStr ''red'')]
     = Inl (SwaggerMappingError ''getWidget does not have parameter colour'')"
proof -
  let ?kw = "[(''id'', PInt 5), (''colour'', PStr ''red'')]"
  have "\<exists>pre k' v post.
           named_kwargs ?kw = pre @ (k', v) # post \<and>
           (\<forall>j \<in> fst ` set pre. j \<in> fst ` set (params example_operation)) \<and>
           k' \<notin> fst ` set (params example_operation) \<and>
           construct_request example_marshal example_operation ?kw =
             Inl (SwaggerMappingError (operation_id example_operation @ '' does not have parameter '' @ k')) \<and>
           occurs_in k' (operation_id example_operation @ '' does not have parameter '' @ k') \<and>
           ((\<forall>j \<in> fst ` set (named_kwargs ?kw). j \<notin> fst ` set (params example_operation) \<longrightarrow> j = ''colour'') \<longrightarrow> k' = ''colour'')"
    by (rule unknown_keyword_is_named)
      (simp_all add: request_options_ok_def example_operation_def)
  then obtain k' where
    r: "construct_request example_marshal example_operation ?kw =
          Inl (SwaggerMappingError (operation_id example_operation @ '' does not have parameter '' @ k'))"
    and only: "(\<forall>j \<in> fst ` set (named_kwargs ?kw). j \<notin> fst ` set (params example_operation) \<longrightarrow> j = ''colour'') \<longrightarrow> k' = ''colour''"
    by blast
  have "\<forall>j \<in> fst ` set (named_kwargs ?kw). j \<notin> fst ` set (params example_operation) \<longrightarrow> j = ''colour''"
    by (simp add: named_kwargs_def example_operation_def)
  with only have "k' = ''colour''"
    by blast
  with r show ?thesis
    by (simp add: example_operation_def)
qed

text \<open>
  C7, as stated, fails: with the required parameter \<^verbatim>\<open>id\<close> omitted and the unknown
  keyword \<^verbatim>\<open>bogus\<close> supplied, the error is the one about the unknown keyword, not
  the one about the required parameter.
\<close>

theorem processing_order_counterexample:
  "(''id'', \<lparr>name = ''id'', location = ''params'', required = True, default_value = None\<rparr>)
     \<in> set (params example_operation) \<and>
   ''id'' \<notin> fst ` set [(''bogus'', PInt 1)] \<and>
   ''bogus'' \<notin> fst ` set (params example_operation) \<and>
   construct_request example_marshal example_operation [(''bogus'', PInt 1)]
     = Inl (SwaggerMappingError ''getWidget does not have parameter bogus'') \<and>
   construct_request example_marshal example_operation [(''bogus'', PInt 1)]
     \<noteq> Inl (SwaggerMappingError ''id is a required parameter'')"
  by (simp add: construct_request_def construct_params_def dict_pop_def example_operation_def)

text \<open>
  C7, amended. The keyword arguments are handled first, in their order: a keyword that
  names no parameter fails, a value that is supplied is marshalled. Only then are the
  parameters that no keyword named handled, in the order of the operation: a required
  one fails, a default is marshalled. So with keyword arguments (distinct keys, the
  reserved key holding a dict) that omit a required parameter and contain a keyword
  that names no parameter, the error is the one about the first such keyword; and the
  error about a required parameter, the first one left, is raised when every keyword
  names a parameter.
\<close>

theorem keywords_are_checked_before_required_parameters:
  assumes "request_options_ok kw" and "distinct (map fst kw)"
  shows "((n, p) \<in> set (params op) \<and> required p \<and> n \<notin> fst ` set kw \<and>
          named_kwargs kw = pre @ (k, v) # post \<and>
          (\<forall>j \<in> fst ` set pre. j \<in> fst ` set (params op)) \<and>
          k \<notin> fst ` set (params op)
          \<longrightarrow> construct_request mp op kw =
                Inl (SwaggerMappingError (operation_id op @ '' does not have parameter '' @ k))) \<and>
         ((\<forall>j \<in> fst ` set (named_kwargs kw). j \<in> fst ` set (params op)) \<and>
          map snd (filter (\<lambda>kv. fst kv \<notin> fst ` set (named_kwargs kw)) (params op))
            = rpre @ q # rpost \<and>
          (\<forall>r \<in> set rpre. \<not> required r) \<and> required q
          \<longrightarrow> construct_request mp op kw =
                Inl (SwaggerMappingError (name q @ '' is a required parameter'')))"
proof -
  let ?kw = "named_kwargs kw"
  let ?req = "initial_request op (request_options_of kw)"
  have c: "construct_request mp op kw = construct_params mp op ?req ?kw"
    using assms(1) by (rule construct_request_options_ok)
  have d: "distinct (map fst ?kw)"
    using assms(2) by (rule named_kwargs_distinct)
  have first: "construct_request mp op kw =
      Inl (SwaggerMappingError (operation_id op @ '' does not have parameter '' @ k))"
    if s: "?kw = pre @ (k, v) # post"
      and pre: "\<forall>j \<in> fst ` set pre. j \<in> fst ` set (params op)"
      and k: "k \<notin> fst ` set (params op)"
  proof -
    have "distinct (map fst (pre @ (k, v) # post))"
      using d s by simp
    from marshal_supplied_first_unknown [OF this pre k] show ?thesis
      using c s by (simp add: construct_params_def)
  qed
  have second: "construct_request mp op kw =
      Inl (SwaggerMappingError (name q @ '' is a required parameter''))"
    if all: "\<forall>j \<in> fst ` set ?kw. j \<in> fst ` set (params op)"
      and left: "map snd (filter (\<lambda>kv. fst kv \<notin> fst ` set ?kw) (params op)) = rpre @ q # rpost"
      and rpre: "\<forall>r \<in> set rpre. \<not> required r" and q: "required q"
  proof -
    have "marshal_supplied mp (operation_id op) (params op) ?kw ?req =
          Inr (filter (\<lambda>kv. fst kv \<notin> fst ` set ?kw) (params op),
               foldl (\<lambda>r kv. mp (the (map_of (params op) (fst kv))) (snd kv) r) ?req ?kw)"
      using d all by (rule marshal_supplied_all_declared)
    then show ?thesis
      using c left check_remaining_first_required [OF rpre q]
      by (simp add: construct_params_def)
  qed
  from first second show ?thesis
    by blast
qed

theorem keywords_are_checked_before_required_parameters_witness:
  "construct_request example_marshal example_operation [(''limit'', PInt 3), (''bogus'', PInt 1)]
     = Inl (SwaggerMappingError ''getWidget does not have parameter bogus'') \<and>
   construct_request example_marshal example_operation [(''limit'', PInt 3)]
     = Inl (SwaggerMappingError ''id is a required parameter'')"
proof -
  let ?id = "\<lparr>name = ''id'', location = ''params'', required = True, default_value = None\<rparr>"
  let ?trace = "\<lparr>name = ''X-Trace'', location = ''headers'', required = False,
                  default_value = None\<rparr>"
  have a: "construct_request example_marshal example_operation
             [(''limit'', PInt 3), (''bogus'', PInt 1)]
           = Inl (SwaggerMappingError
                (operation_id example_operation @ '' does not have parameter '' @ ''bogus''))"
    using keywords_are_checked_before_required_parameters
      [of "[(''limit'', PInt 3), (''bogus'', PInt 1)]" "''id''" ?id example_operation
          "[(''limit'', PInt 3)]" "''bogus''" "PInt 1" "[]" example_marshal]
    by (simp add: request_options_ok_def named_kwargs_def example_operation_def)
  have b: "construct_request example_marshal example_operation [(''limit'', PInt 3)]
           = Inl (SwaggerMappingError (name ?id @ '' is a required parameter''))"
    using keywords_are_checked_before_required_parameters
      [of "[(''limit'', PInt 3)]" _ _ example_operation _ _ _ _ example_marshal "[]" ?id "[?trace]"]
    by (simp add: request_options_ok_def named_kwargs_def example_operation_def)
  from a b show ?thesis
    by (simp add: example_operation_def)
qed

subsection \<open>The shared headers dict\<close>

lemma dict_set_same:
  "map_of r k = Some v \<Longrightarrow> dict_set k v r = r"
  by (induction r) (auto split: if_splits)

text \<open>
  One marshalling in place: the request reads afterwards as the marshaller says, and
  the store changes at most at the shared headers dict.
\<close>

lemma marshal_param_in_place_read:
  assumes "marshal_param_in_place mp p v hr s = (hr', s')"
  shows "read_request s' hr' = mp p v (read_request s hr)"
  using assms
  by (auto simp: marshal_param_in_place_def read_request_def Let_def dict_set_same
      split: option.splits pyval.splits)

lemma marshal_param_in_place_frame:
  assumes "marshal_param_in_place mp p v hr s = (hr', s')"
  shows "(shared_headers hr' = shared_headers hr \<or> shared_headers hr' = None) \<and>
         (\<forall>b. shared_headers hr \<noteq> Some b \<longrightarrow> s' b = s b)"
  using assms
  by (auto simp: marshal_param_in_place_def Let_def split: option.splits pyval.splits)

lemma read_request_agree:
  assumes "\<forall>a. shared_headers hr = Some a \<longrightarrow> s a = t a"
  shows "read_request s hr = read_request t hr"
  using assms by (simp add: read_request_def split: option.splits)

lemma marshal_param_in_place_agree:
  assumes "\<forall>a. shared_headers hr = Some a \<longrightarrow> s a = t a"
    and "marshal_param_in_place mp p v hr s = (hr1, s1)"
    and "marshal_param_in_place mp p v hr t = (hr2, t1)"
  shows "hr1 = hr2 \<and> (\<forall>a. shared_headers hr = Some a \<longrightarrow> s1 a = t1 a)"
  using assms(2,3) read_request_agree [OF assms(1)] assms(1)
  by (auto simp: marshal_param_in_place_def Let_def split: option.splits pyval.splits)

text \<open>
  The loops with the store return, read by value, what the loops without it return.
\<close>

lemma marshal_supplied_in_place_by_value:
  "(case marshal_supplied_in_place mp opid cur kw hr s of
      (Inl e, s') \<Rightarrow> Inl e
    | (Inr (cur', hr'), s') \<Rightarrow> Inr (cur', read_request s' hr'))
   = marshal_supplied mp opid cur kw (read_request s hr)"
proof (induction kw arbitrary: cur hr s)
  case Nil
  show ?case by simp
next
  case (Cons a kw)
  obtain n x where a: "a = (n, x)"
    by (cases a)
  show ?case
  proof (cases "map_of cur n")
    case None
    then show ?thesis
      using a by (simp add: dict_pop_def)
  next
    case (Some p)
    obtain hr' s' where step: "marshal_param_in_place mp p x hr s = (hr', s')"
      by (cases "marshal_param_in_place mp p x hr s")
    from Cons.IH [of "filter (\<lambda>kv. fst kv \<noteq> n) cur" hr' s'] show ?thesis
      using a Some step marshal_param_in_place_read [OF step] by (simp add: dict_pop_def)
  qed
qed

lemma check_remaining_in_place_by_value:
  "returned_by_value (check_remaining_in_place mp ps hr s) = check_remaining mp ps (read_request s hr)"
proof (induction ps arbitrary: hr s)
  case Nil
  show ?case by (simp add: returned_by_value_def)
next
  case (Cons p ps)
  obtain hr' s' where step: "marshal_param_in_place mp p PNone hr s = (hr', s')"
    by (cases "marshal_param_in_place mp p PNone hr s")
  show ?case
    using Cons.IH [of hr' s'] Cons.IH [of hr s] step marshal_param_in_place_read [OF step]
    by (simp add: returned_by_value_def)
qed

lemma construct_params_in_place_by_value:
  "returned_by_value (construct_params_in_place mp op hr kw s) =
   construct_params mp op (read_request s hr) kw"
proof -
  obtain res s' where m: "marshal_supplied_in_place mp (operation_id op) (params op) kw hr s = (res, s')"
    by (cases "marshal_supplied_in_place mp (operation_id op) (params op) kw hr s")
  show ?thesis
  proof (cases res)
    case (Inl e)
    with m marshal_supplied_in_place_by_value [of mp "operation_id op" "params op" kw hr s]
    have "marshal_supplied mp (operation_id op) (params op) kw (read_request s hr) = Inl e"
      by simp
    with Inl m show ?thesis
      by (simp add: construct_params_in_place_def construct_params_def returned_by_value_def)
  next
    case (Inr pair)
    obtain cur' hr' where pair: "pair = (cur', hr')"
      by (cases pair)
    with Inr m marshal_supplied_in_place_by_value [of mp "operation_id op" "params op" kw hr s]
    have "marshal_supplied mp (operation_id op) (params op) kw (read_request s hr) =
          Inr (cur', read_request s' hr')"
      by simp
    with Inr pair m show ?thesis
      by (simp add: construct_params_in_place_def construct_params_def
          check_remaining_in_place_by_value)
  qed
qed

lemma read_initial_request:
  "read_request s \<lparr>snapshot = initial_request op (options_by_value s hdr opts),
                    shared_headers = hdr\<rparr>
   = initial_request op (options_by_value s hdr opts)"
proof (cases hdr)
  case None
  then show ?thesis by (simp add: read_request_def)
next
  case (Some a)
  have "map_of (initial_request op ((''headers'', PDict (s a)) # opts)) ''headers''
        = Some (PDict (s a))"
    by (simp add: initial_request_lookup)
  then show ?thesis
    using Some by (simp add: read_request_def options_by_value_def dict_set_same)
qed

lemma construct_request_shared_by_value:
  "returned_by_value (construct_request_shared mp op kw hdr opts s) =
   construct_params mp op (initial_request op (options_by_value s hdr opts)) kw"
  by (simp add: construct_request_shared_def construct_params_in_place_by_value
      read_initial_request)

text \<open>
  The request by value of \<^verbatim>\<open>construct_request\<close> is the shared one read when the call
  returns: the two descriptions of the function agree.
\<close>

lemma construct_request_shared_is_construct_request:
  assumes "''_request_options'' \<notin> fst ` set kw"
  shows "returned_by_value (construct_request_shared mp op kw hdr opts s) =
         construct_request mp op ((''_request_options'', PDict (options_by_value s hdr opts)) # kw)"
proof -
  have "filter (\<lambda>kv. fst kv \<noteq> ''_request_options'') kw = kw"
    using assms by (force simp: filter_id_conv)
  then show ?thesis
    by (simp add: construct_request_shared_by_value construct_request_def dict_pop_def)
qed

text \<open>
  The loops change the store at most at the shared headers dict.
\<close>

lemma marshal_supplied_in_place_frame:
  assumes "marshal_supplied_in_place mp opid cur kw hr s = (res, s')"
  shows "(\<forall>b. shared_headers hr \<noteq> Some b \<longrightarrow> s' b = s b) \<and>
         (\<forall>cur' hr'. res = Inr (cur', hr') \<longrightarrow>
            shared_headers hr' = shared_headers hr \<or> shared_headers hr' = None)"
  using assms
proof (induction kw arbitrary: cur hr s)
  case Nil
  then show ?case by auto
next
  case (Cons a kw)
  obtain n x where a: "a = (n, x)"
    by (cases a)
  show ?case
  proof (cases "map_of cur n")
    case None
    then show ?thesis
      using Cons.prems a by (auto simp: dict_pop_def)
  next
    case (Some p)
    obtain hr1 s1 where step: "marshal_param_in_place mp p x hr s = (hr1, s1)"
      by (cases "marshal_param_in_place mp p x hr s")
    have rest: "marshal_supplied_in_place mp opid (filter (\<lambda>kv. fst kv \<noteq> n) cur) kw hr1 s1 = (res, s')"
      using Cons.prems a Some step by (simp add: dict_pop_def)
    from marshal_param_in_place_frame [OF step] Cons.IH [OF rest] show ?thesis
      by auto
  qed
qed

lemma check_remaining_in_place_frame:
  assumes "check_remaining_in_place mp ps hr s = (res, s')"
  shows "\<forall>b. shared_headers hr \<noteq> Some b \<longrightarrow> s' b = s b"
  using assms
proof (induction ps arbitrary: hr s)
  case Nil
  then show ?case by auto
next
  case (Cons p ps)
  obtain hr1 s1 where step: "marshal_param_in_place mp p PNone hr s = (hr1, s1)"
    by (cases "marshal_param_in_place mp p PNone hr s")
  show ?case
  proof (cases "required p")
    case True
    then show ?thesis
      using Cons.prems by auto
  next
    case False
    show ?thesis
    proof (cases "has_default p")
      case True
      with False Cons.prems step have "check_remaining_in_place mp ps hr1 s1 = (res, s')"
        by simp
      from marshal_param_in_place_frame [OF step] Cons.IH [OF this] show ?thesis
        by auto
    next
      case nodefault: False
      with False Cons.prems have "check_remaining_in_place mp ps hr s = (res, s')"
        by simp
      from Cons.IH [OF this] show ?thesis .
    qed
  qed
qed

lemma construct_request_shared_frame:
  assumes "hdr \<noteq> Some b"
  shows "snd (construct_request_shared mp op kw hdr opts s) b = s b"
proof -
  let ?hr = "\<lparr>snapshot = initial_request op (options_by_value s hdr opts), shared_headers = hdr\<rparr>"
  obtain res s1 where m: "marshal_supplied_in_place mp (operation_id op) (params op) kw ?hr s = (res, s1)"
    by (cases "marshal_supplied_in_place mp (operation_id op) (params op) kw ?hr s")
  from marshal_supplied_in_place_frame [OF m] assms
  have s1: "s1 b = s b"
    and sh: "\<forall>cur' hr'. res = Inr (cur', hr') \<longrightarrow> shared_headers hr' = hdr \<or> shared_headers hr' = None"
    by auto
  show ?thesis
  proof (cases res)
    case (Inl e)
    with m s1 show ?thesis
      by (simp add: construct_request_shared_def construct_params_in_place_def)
  next
    case (Inr pair)
    obtain cur' hr' where pair: "pair = (cur', hr')"
      by (cases pair)
    obtain res2 s2 where c: "check_remaining_in_place mp (map snd cur') hr' s1 = (res2, s2)"
      by (cases "check_remaining_in_place mp (map snd cur') hr' s1")
    from sh Inr pair assms have "shared_headers hr' \<noteq> Some b"
      by auto
    with check_remaining_in_place_frame [OF c] have "s2 b = s1 b"
      by simp
    with Inr pair m c s1 show ?thesis
      by (simp add: construct_request_shared_def construct_params_in_place_def)
  qed
qed

text \<open>
  From two stores that agree on the shared headers dict, the loops return the same and
  leave stores that agree on it.
\<close>

lemma marshal_supplied_in_place_agree:
  assumes "\<forall>a. shared_headers hr = Some a \<longrightarrow> s a = t a"
  shows "fst (marshal_supplied_in_place mp opid cur kw hr s) =
         fst (marshal_supplied_in_place mp opid cur kw hr t) \<and>
         (\<forall>a. shared_headers hr = Some a \<longrightarrow>
            snd (marshal_supplied_in_place mp opid cur kw hr s) a =
            snd (marshal_supplied_in_place mp opid cur kw hr t) a)"
  using assms
proof (induction kw arbitrary: cur hr s t)
  case Nil
  then show ?case by simp
next
  case (Cons a kw)
  obtain n x where a: "a = (n, x)"
    by (cases a)
  show ?case
  proof (cases "map_of cur n")
    case None
    then show ?thesis
      using Cons.prems a by (simp add: dict_pop_def)
  next
    case (Some p)
    let ?cur = "filter (\<lambda>kv. fst kv \<noteq> n) cur"
    obtain hr1 s1 where step_s: "marshal_param_in_place mp p x hr s = (hr1, s1)"
      by (cases "marshal_param_in_place mp p x hr s")
    obtain hr2 t1 where step_t: "marshal_param_in_place mp p x hr t = (hr2, t1)"
      by (cases "marshal_param_in_place mp p x hr t")
    from marshal_param_in_place_agree [OF Cons.prems step_s step_t]
    have same: "hr2 = hr1" and at: "\<forall>a. shared_headers hr = Some a \<longrightarrow> s1 a = t1 a"
      by auto
    from marshal_param_in_place_frame [OF step_s]
    have sh: "shared_headers hr1 = shared_headers hr \<or> shared_headers hr1 = None"
      by simp
    then have at1: "\<forall>a. shared_headers hr1 = Some a \<longrightarrow> s1 a = t1 a"
      using at by auto
    have unfold_s: "marshal_supplied_in_place mp opid cur (a # kw) hr s =
                    marshal_supplied_in_place mp opid ?cur kw hr1 s1"
      using a Some step_s by (simp add: dict_pop_def)
    have unfold_t: "marshal_supplied_in_place mp opid cur (a # kw) hr t =
                    marshal_supplied_in_place mp opid ?cur kw hr1 t1"
      using a Some step_t same by (simp add: dict_pop_def)
    have res: "fst (marshal_supplied_in_place mp opid ?cur kw hr1 s1) =
               fst (marshal_supplied_in_place mp opid ?cur kw hr1 t1)"
      and fin: "\<forall>a. shared_headers hr1 = Some a \<longrightarrow>
            snd (marshal_supplied_in_place mp opid ?cur kw hr1 s1) a =
            snd (marshal_supplied_in_place mp opid ?cur kw hr1 t1) a"
      using Cons.IH [OF at1, of ?cur] by auto
    have "snd (marshal_supplied_in_place mp opid ?cur kw hr1 s1) b =
          snd (marshal_supplied_in_place mp opid ?cur kw hr1 t1) b"
      if b: "shared_headers hr = Some b" for b
    proof (cases "shared_headers hr1 = Some b")
      case True
      with fin show ?thesis by simp
    next
      case False
      obtain r1 u1 where m1: "marshal_supplied_in_place mp opid ?cur kw hr1 s1 = (r1, u1)"
        by (cases "marshal_supplied_in_place mp opid ?cur kw hr1 s1")
      obtain r2 u2 where m2: "marshal_supplied_in_place mp opid ?cur kw hr1 t1 = (r2, u2)"
        by (cases "marshal_supplied_in_place mp opid ?cur kw hr1 t1")
      from marshal_supplied_in_place_frame [OF m1] False have "u1 b = s1 b"
        by simp
      moreover from marshal_supplied_in_place_frame [OF m2] False have "u2 b = t1 b"
        by simp
      ultimately show ?thesis
        using m1 m2 at b by simp
    qed
    with res unfold_s unfold_t show ?thesis
      by simp
  qed
qed

lemma check_remaining_in_place_agree:
  assumes "\<forall>a. shared_headers hr = Some a \<longrightarrow> s a = t a"
  shows "fst (check_remaining_in_place mp ps hr s) = fst (check_remaining_in_place mp ps hr t) \<and>
         (\<forall>a. shared_headers hr = Some a \<longrightarrow>
            snd (check_remaining_in_place mp ps hr s) a =
            snd (check_remaining_in_place mp ps hr t) a)"
  using assms
proof (induction ps arbitrary: hr s t)
  case Nil
  then show ?case by simp
next
  case (Cons p ps)
  show ?case
  proof (cases "\<not> required p \<and> has_default p")
    case False
    then show ?thesis
      using Cons.IH [OF Cons.prems] Cons.prems by auto
  next
    case True
    obtain hr1 s1 where step_s: "marshal_param_in_place mp p PNone hr s = (hr1, s1)"
      by (cases "marshal_param_in_place mp p PNone hr s")
    obtain hr2 t1 where step_t: "marshal_param_in_place mp p PNone hr t = (hr2, t1)"
      by (cases "marshal_param_in_place mp p PNone hr t")
    from marshal_param_in_place_agree [OF Cons.prems step_s step_t]
    have same: "hr2 = hr1" and at: "\<forall>a. shared_headers hr = Some a \<longrightarrow> s1 a = t1 a"
      by auto
    from marshal_param_in_place_frame [OF step_s]
    have sh: "shared_headers hr1 = shared_headers hr \<or> shared_headers hr1 = None"
      by simp
    then have at1: "\<forall>a. shared_headers hr1 = Some a \<longrightarrow> s1 a = t1 a"
      using at by auto
    have unfold_s: "check_remaining_in_place mp (p # ps) hr s = check_remaining_in_place mp ps hr1 s1"
      using True step_s by simp
    have unfold_t: "check_remaining_in_place mp (p # ps) hr t = check_remaining_in_place mp ps hr1 t1"
      using True step_t same by simp
    have res: "fst (check_remaining_in_place mp ps hr1 s1) = fst (check_remaining_in_place mp ps hr1 t1)"
      and fin: "\<forall>a. shared_headers hr1 = Some a \<longrightarrow>
            snd (check_remaining_in_place mp ps hr1 s1) a =
            snd (check_remaining_in_place mp ps hr1 t1) a"
      using Cons.IH [OF at1] by auto
    have "snd (check_remaining_in_place mp ps hr1 s1) b =
          snd (check_remaining_in_place mp ps hr1 t1) b"
      if b: "shared_headers hr = Some b" for b
    proof (cases "shared_headers hr1 = Some b")
      case True
      with fin show ?thesis by simp
    next
      case False
      obtain r1 u1 where m1: "check_remaining_in_place mp ps hr1 s1 = (r1, u1)"
        by (cases "check_remaining_in_place mp ps hr1 s1")
      obtain r2 u2 where m2: "check_remaining_in_place mp ps hr1 t1 = (r2, u2)"
        by (cases "check_remaining_in_place mp ps hr1 t1")
      from check_remaining_in_place_frame [OF m1] False have "u1 b = s1 b"
        by simp
      moreover from check_remaining_in_place_frame [OF m2] False have "u2 b = t1 b"
        by simp
      ultimately show ?thesis
        using m1 m2 at b by simp
    qed
    with res unfold_s unfold_t show ?thesis
      by simp
  qed
qed

lemma construct_request_shared_agree:
  assumes "\<forall>a. hdr = Some a \<longrightarrow> s a = t a"
  shows "fst (construct_request_shared mp op kw hdr opts s) =
         fst (construct_request_shared mp op kw hdr opts t) \<and>
         (\<forall>a. hdr = Some a \<longrightarrow>
            snd (construct_request_shared mp op kw hdr opts s) a =
            snd (construct_request_shared mp op kw hdr opts t) a)"
proof -
  have o: "options_by_value s hdr opts = options_by_value t hdr opts"
    using assms by (simp add: options_by_value_def split: option.splits)
  let ?hr = "\<lparr>snapshot = initial_request op (options_by_value t hdr opts), shared_headers = hdr\<rparr>"
  have agree0: "\<forall>a. shared_headers ?hr = Some a \<longrightarrow> s a = t a"
    using assms by simp
  obtain res s1 where ms: "marshal_supplied_in_place mp (operation_id op) (params op) kw ?hr s = (res, s1)"
    by (cases "marshal_supplied_in_place mp (operation_id op) (params op) kw ?hr s")
  obtain res' t1 where mt: "marshal_supplied_in_place mp (operation_id op) (params op) kw ?hr t = (res', t1)"
    by (cases "marshal_supplied_in_place mp (operation_id op) (params op) kw ?hr t")
  from marshal_supplied_in_place_agree [OF agree0, of mp "operation_id op" "params op" kw] ms mt
  have same: "res' = res" and at: "\<forall>a. hdr = Some a \<longrightarrow> s1 a = t1 a"
    by auto
  show ?thesis
  proof (cases res)
    case (Inl e)
    have "construct_request_shared mp op kw hdr opts s = (Inl e, s1)"
      using ms Inl o by (simp add: construct_request_shared_def construct_params_in_place_def)
    moreover have "construct_request_shared mp op kw hdr opts t = (Inl e, t1)"
      using mt same Inl by (simp add: construct_request_shared_def construct_params_in_place_def)
    ultimately show ?thesis
      using at by auto
  next
    case (Inr pair)
    obtain cur' hr' where pair: "pair = (cur', hr')"
      by (cases pair)
    have us: "construct_request_shared mp op kw hdr opts s =
              check_remaining_in_place mp (map snd cur') hr' s1"
      using ms Inr pair o by (simp add: construct_request_shared_def construct_params_in_place_def)
    have ut: "construct_request_shared mp op kw hdr opts t =
              check_remaining_in_place mp (map snd cur') hr' t1"
      using mt same Inr pair by (simp add: construct_request_shared_def construct_params_in_place_def)
    from marshal_supplied_in_place_frame [OF ms] Inr pair
    have sh: "shared_headers hr' = hdr \<or> shared_headers hr' = None"
      by simp
    then have at1: "\<forall>a. shared_headers hr' = Some a \<longrightarrow> s1 a = t1 a"
      using at by auto
    from check_remaining_in_place_agree [OF at1, of mp "map snd cur'"]
    have res: "fst (check_remaining_in_place mp (map snd cur') hr' s1) =
               fst (check_remaining_in_place mp (map snd cur') hr' t1)"
      and fin: "\<forall>a. shared_headers hr' = Some a \<longrightarrow>
            snd (check_remaining_in_place mp (map snd cur') hr' s1) a =
            snd (check_remaining_in_place mp (map snd cur') hr' t1) a"
      by auto
    have "snd (check_remaining_in_place mp (map snd cur') hr' s1) b =
          snd (check_remaining_in_place mp (map snd cur') hr' t1) b"
      if b: "hdr = Some b" for b
    proof (cases "shared_headers hr' = Some b")
      case True
      with fin show ?thesis by simp
    next
      case False
      obtain r1 u1 where m1: "check_remaining_in_place mp (map snd cur') hr' s1 = (r1, u1)"
        by (cases "check_remaining_in_place mp (map snd cur') hr' s1")
      obtain r2 u2 where m2: "check_remaining_in_place mp (map snd cur') hr' t1 = (r2, u2)"
        by (cases "check_remaining_in_place mp (map snd cur') hr' t1")
      from check_remaining_in_place_frame [OF m1] False have "u1 b = s1 b"
        by simp
      moreover from check_remaining_in_place_frame [OF m2] False have "u2 b = t1 b"
        by simp
      ultimately show ?thesis
        using m1 m2 at b by simp
    qed
    with res us ut show ?thesis
      by auto
  qed
qed

text \<open>
  A key that the marshaller leaves alone reads in the returned request as in the
  request that the loops started from.
\<close>

lemma marshal_supplied_leaves_key:
  assumes "\<forall>p \<in> snd ` set cur. \<forall>v r. map_of (mp p v r) k = map_of r k"
    and "marshal_supplied mp opid cur kw req = Inr (cur', req')"
  shows "map_of req' k = map_of req k \<and> set cur' \<subseteq> set cur"
  using assms
proof (induction kw arbitrary: cur req)
  case Nil
  then show ?case by auto
next
  case (Cons a kw)
  obtain n x where a: "a = (n, x)"
    by (cases a)
  show ?case
  proof (cases "map_of cur n")
    case None
    then show ?thesis
      using Cons.prems(2) a by (simp add: dict_pop_def)
  next
    case (Some p)
    let ?cur = "filter (\<lambda>kv. fst kv \<noteq> n) cur"
    have p: "p \<in> snd ` set cur"
      using Some by (force dest: map_of_SomeD)
    have sub: "\<forall>p \<in> snd ` set ?cur. \<forall>v r. map_of (mp p v r) k = map_of r k"
      using Cons.prems(1) by auto
    have rest: "marshal_supplied mp opid ?cur kw (mp p x req) = Inr (cur', req')"
      using Cons.prems(2) a Some by (simp add: dict_pop_def)
    from Cons.IH [OF sub rest] have "map_of req' k = map_of (mp p x req) k" and "set cur' \<subseteq> set ?cur"
      by auto
    then show ?thesis
      using Cons.prems(1) p by auto
  qed
qed

lemma check_remaining_leaves_key:
  assumes "\<forall>p \<in> set ps. \<forall>v r. map_of (mp p v r) k = map_of r k"
    and "check_remaining mp ps req = Inr req'"
  shows "map_of req' k = map_of req k"
  using assms
proof (induction ps arbitrary: req)
  case Nil
  then show ?case by simp
next
  case (Cons p ps)
  then show ?case
    by (auto split: if_splits)
qed

lemma construct_params_leaves_key:
  assumes "leaves_key mp op k" and "construct_params mp op req kw = Inr req'"
  shows "map_of req' k = map_of req k"
proof -
  from assms(2) obtain cur' req1 where
    m: "marshal_supplied mp (operation_id op) (params op) kw req = Inr (cur', req1)"
    and c: "check_remaining mp (map snd cur') req1 = Inr req'"
    by (auto simp: construct_params_def split: sum.splits)
  have all: "\<forall>p \<in> snd ` set (params op). \<forall>v r. map_of (mp p v r) k = map_of r k"
    using assms(1) by (simp add: leaves_key_def)
  from marshal_supplied_leaves_key [OF all m]
  have k1: "map_of req1 k = map_of req k" and sub: "set cur' \<subseteq> set (params op)"
    by auto
  have "\<forall>p \<in> set (map snd cur'). \<forall>v r. map_of (mp p v r) k = map_of r k"
    using all sub by auto
  from check_remaining_leaves_key [OF this c] k1 show ?thesis
    by simp
qed

text \<open>
  The table of \<open>upper_char\<close> against the codes of ASCII: the letters a to z, codes 97
  to 122, go 32 down, every other byte stays.
\<close>

lemma upper_char_by_code:
  "upper_char c =
     (if 97 \<le> (of_char c :: nat) \<and> (of_char c :: nat) \<le> 122
      then char_of ((of_char c :: nat) - 32) else c)"
proof (cases c)
  case (Char b0 b1 b2 b3 b4 b5 b6 b7)
  then show ?thesis
    by (cases b0; cases b1; cases b2; cases b3; cases b4; cases b5; cases b6; cases b7)
       (simp_all add: upper_char_def char_of_def bit_Suc_0_iff)
qed

lemma upper_examples:
  "upper ''get'' = ''GET'' \<and> upper ''post'' = ''POST'' \<and> upper ''Delete'' = ''DELETE'' \<and>
   upper ''x-1_z'' = ''X-1_Z'' \<and> length (upper s) = length s"
  by (simp add: upper_def upper_char_def)

text \<open>
  C8, as stated, fails: \<^verbatim>\<open>construct_request\<close> is not pure, and a dict that it
  mutates decides what it returns. The caller keeps the dict object that it passes as
  \<^verbatim>\<open>_request_options['headers']\<close> (address 0). A call of \<^verbatim>\<open>createWidget\<close> with
  \<^verbatim>\<open>colour\<close> alone returns a request whose headers are the one entry of that dict.
  A call that supplies the header parameter \<^verbatim>\<open>X-Trace\<close> as well writes it into the
  caller's dict. After it, the call with \<^verbatim>\<open>colour\<close> alone, with the same keyword
  arguments as before, returns a request with two header entries; and the request that
  the first call returned now reads with two entries as well.
\<close>

theorem shared_headers_counterexample:
  "returned_by_value
     (construct_request_shared example_marshal example_create_operation
        [(''colour'', PStr ''red'')] (Some 0) [] example_store)
   = Inr [(''method'', PStr ''POST''),
          (''url'', PStr ''http://example.org/api/widgets''),
          (''params'', PDict [(''colour'', PStr ''red'')]),
          (''headers'', PDict [(''Accept'', PStr ''application/json'')])] \<and>
   example_store 0 = [(''Accept'', PStr ''application/json'')] \<and>
   example_store_after_traced_call 0
     = [(''Accept'', PStr ''application/json''), (''X-Trace'', PStr ''abc'')] \<and>
   returned_by_value
     (construct_request_shared example_marshal example_create_operation
        [(''colour'', PStr ''red'')] (Some 0) [] example_store_after_traced_call)
   = Inr [(''method'', PStr ''POST''),
          (''url'', PStr ''http://example.org/api/widgets''),
          (''params'', PDict [(''colour'', PStr ''red'')]),
          (''headers'', PDict [(''Accept'', PStr ''application/json''),
                               (''X-Trace'', PStr ''abc'')])] \<and>
   returned_by_value
     (construct_request_shared example_marshal example_create_operation
        [(''colour'', PStr ''red'')] (Some 0) [] example_store)
   \<noteq> returned_by_value
     (construct_request_shared example_marshal example_create_operation
        [(''colour'', PStr ''red'')] (Some 0) [] example_store_after_traced_call) \<and>
   map_sum id (read_request example_store_after_traced_call)
     (fst (construct_request_shared example_marshal example_create_operation
        [(''colour'', PStr ''red'')] (Some 0) [] example_store))
   = Inr [(''method'', PStr ''POST''),
          (''url'', PStr ''http://example.org/api/widgets''),
          (''params'', PDict [(''colour'', PStr ''red'')]),
          (''headers'', PDict [(''Accept'', PStr ''application/json''),
                               (''X-Trace'', PStr ''abc'')])]"
  by (simp add: example_store_after_traced_call_def example_store_def
      construct_request_shared_def construct_params_in_place_def marshal_param_in_place_def
      read_request_def returned_by_value_def options_by_value_def initial_request_def
      copy_request_options_def dict_pop_def has_default_def Let_def
      example_create_operation_def example_marshal_def upper_def upper_char_def rstrip_slash_def)

text \<open>
  C8, amended. \<^verbatim>\<open>construct_request\<close> is deterministic in the operation, the keyword
  arguments and the content of the caller's headers dict. From two stores that agree on
  that dict, the same arguments give the same exception or the same request by value,
  and leave the dict with the same content; no other object of the store is changed,
  and with no headers object of the caller none at all. The returned request has the
  method in upper case and the URL that joins the API URL without its trailing slashes
  and the path, where the marshaller leaves these keys alone. It is the request by
  value of \<^verbatim>\<open>construct_request\<close> above, and the call of the operation hands the
  transport that request and nothing else.
\<close>

theorem construct_request_depends_on_shared_headers:
  assumes "\<forall>a. hdr = Some a \<longrightarrow> s a = t a"
  shows "returned_by_value (construct_request_shared mp op kw hdr opts s) =
         returned_by_value (construct_request_shared mp op kw hdr opts t) \<and>
         (\<forall>a. hdr = Some a \<longrightarrow>
            snd (construct_request_shared mp op kw hdr opts s) a =
            snd (construct_request_shared mp op kw hdr opts t) a) \<and>
         (\<forall>b. hdr \<noteq> Some b \<longrightarrow> snd (construct_request_shared mp op kw hdr opts s) b = s b) \<and>
         (\<forall>r. returned_by_value (construct_request_shared mp op kw hdr opts s) = Inr r \<longrightarrow>
            (leaves_key mp op ''method'' \<longrightarrow>
               map_of r ''method'' = Some (PStr (upper (http_method op)))) \<and>
            (leaves_key mp op ''url'' \<longrightarrow>
               map_of r ''url'' = Some (PStr (rstrip_slash (api_url op) @ path_name op)))) \<and>
         (''_request_options'' \<notin> fst ` set kw \<longrightarrow>
            returned_by_value (construct_request_shared mp op kw hdr opts s) =
            construct_request mp op
              ((''_request_options'', PDict (options_by_value s hdr opts)) # kw)) \<and>
         (\<forall>kw' w. sent (snd (call_operation mp op kw' w)) =
            sent w @ (case construct_request mp op kw' of Inl e \<Rightarrow> [] | Inr r \<Rightarrow> [r]))"
proof -
  let ?run = "\<lambda>u. construct_request_shared mp op kw hdr opts u"
  have o: "options_by_value s hdr opts = options_by_value t hdr opts"
    using assms by (simp add: options_by_value_def split: option.splits)
  have same: "returned_by_value (?run s) = returned_by_value (?run t)"
    by (simp add: construct_request_shared_by_value o)
  have left: "\<forall>a. hdr = Some a \<longrightarrow> snd (?run s) a = snd (?run t) a"
    using construct_request_shared_agree [OF assms] by blast
  have frame: "\<forall>b. hdr \<noteq> Some b \<longrightarrow> snd (?run s) b = s b"
    by (simp add: construct_request_shared_frame)
  have shape: "map_of r k = map_of (initial_request op (options_by_value s hdr opts)) k"
    if "returned_by_value (?run s) = Inr r" and "leaves_key mp op k" for r k
    using that construct_params_leaves_key [of mp op k _ kw r]
    by (simp add: construct_request_shared_by_value)
  have shapes: "\<forall>r. returned_by_value (?run s) = Inr r \<longrightarrow>
            (leaves_key mp op ''method'' \<longrightarrow>
               map_of r ''method'' = Some (PStr (upper (http_method op)))) \<and>
            (leaves_key mp op ''url'' \<longrightarrow>
               map_of r ''url'' = Some (PStr (rstrip_slash (api_url op) @ path_name op)))"
    using shape by (simp add: initial_request_lookup)
  have link: "''_request_options'' \<notin> fst ` set kw \<longrightarrow>
            returned_by_value (?run s) =
            construct_request mp op
              ((''_request_options'', PDict (options_by_value s hdr opts)) # kw)"
    using construct_request_shared_is_construct_request by blast
  have io: "sent (snd (call_operation mp op kw' w)) =
            sent w @ (case construct_request mp op kw' of Inl e \<Rightarrow> [] | Inr r \<Rightarrow> [r])" for kw' w
  proof (cases "construct_request mp op kw'")
    case (Inl e)
    then show ?thesis
      using call_operation_failure [of mp op kw' e w] by simp
  next
    case (Inr r)
    then show ?thesis
      using call_operation_success [of mp op kw' r w] by simp
  qed
  from same left frame shapes link io show ?thesis
    by blast
qed

lemma example_marshal_leaves_key:
  assumes "k \<noteq> ''params''" and "k \<noteq> ''headers''"
  shows "leaves_key example_marshal example_create_operation k"
  using assms
  by (auto simp: leaves_key_def example_marshal_def example_create_operation_def
      map_of_dict_set Let_def split: option.splits pyval.splits prod.splits)

theorem construct_request_depends_on_shared_headers_witness:
  "returned_by_value
     (construct_request_shared example_marshal example_create_operation
        [(''colour'', PStr ''red''), (''X-Trace'', PStr ''abc'')] (Some 0)
        [(''timeout'', PInt 3)] example_other_store)
   = Inr [(''method'', PStr ''POST''),
          (''url'', PStr ''http://example.org/api/widgets''),
          (''params'', PDict [(''colour'', PStr ''red'')]),
          (''headers'', PDict [(''Accept'', PStr ''application/json''),
                               (''X-Trace'', PStr ''abc'')]),
          (''timeout'', PInt 3)] \<and>
   snd (construct_request_shared example_marshal example_create_operation
        [(''colour'', PStr ''red''), (''X-Trace'', PStr ''abc'')] (Some 0)
        [(''timeout'', PInt 3)] example_other_store) 0
   = [(''Accept'', PStr ''application/json''), (''X-Trace'', PStr ''abc'')] \<and>
   snd (construct_request_shared example_marshal example_create_operation
        [(''colour'', PStr ''red''), (''X-Trace'', PStr ''abc'')] (Some 0)
        [(''timeout'', PInt 3)] example_other_store) 1
   = [(''other'', PNone)] \<and>
   (\<exists>r. returned_by_value
          (construct_request_shared example_marshal example_create_operation
             [(''colour'', PStr ''red''), (''X-Trace'', PStr ''abc'')] (Some 0)
             [(''timeout'', PInt 3)] example_store) = Inr r \<and>
        map_of r ''method'' = Some (PStr ''POST'') \<and>
        map_of r ''url'' = Some (PStr ''http://example.org/api/widgets''))"
proof -
  let ?kw = "[(''colour'', PStr ''red''), (''X-Trace'', PStr ''abc'')]"
  let ?opts = "[(''timeout'', PInt 3)]"
  let ?run = "\<lambda>u. construct_request_shared example_marshal example_create_operation ?kw (Some 0) ?opts u"
  let ?r = "[(''method'', PStr ''POST''),
          (''url'', PStr ''http://example.org/api/widgets''),
          (''params'', PDict [(''colour'', PStr ''red'')]),
          (''headers'', PDict [(''Accept'', PStr ''application/json''),
                               (''X-Trace'', PStr ''abc'')]),
          (''timeout'', PInt 3)]"
  have agree: "\<forall>a. Some (0::nat) = Some a \<longrightarrow> example_store a = example_other_store a"
    by (simp add: example_store_def example_other_store_def)
  note inst = construct_request_depends_on_shared_headers
    [OF agree, of example_marshal example_create_operation ?kw ?opts]
  have run_s: "returned_by_value (?run example_store) = Inr ?r"
    and left_s: "snd (?run example_store) 0
      = [(''Accept'', PStr ''application/json''), (''X-Trace'', PStr ''abc'')]"
    by (simp_all add: example_store_def
      construct_request_shared_def construct_params_in_place_def marshal_param_in_place_def
      read_request_def returned_by_value_def options_by_value_def initial_request_def
      copy_request_options_def dict_pop_def has_default_def Let_def
      example_create_operation_def example_marshal_def upper_def upper_char_def rstrip_slash_def)
  from inst run_s have run_t: "returned_by_value (?run example_other_store) = Inr ?r"
    by simp
  from inst left_s have left_t: "snd (?run example_other_store) 0
      = [(''Accept'', PStr ''application/json''), (''X-Trace'', PStr ''abc'')]"
    by simp
  have "snd (?run example_other_store) 1 = example_other_store 1"
    using construct_request_depends_on_shared_headers
      [of "Some 0" example_other_store example_other_store example_marshal
          example_create_operation ?kw ?opts]
    by simp
  then have other: "snd (?run example_other_store) 1 = [(''other'', PNone)]"
    by (simp add: example_other_store_def)
  have m: "leaves_key example_marshal example_create_operation ''method''"
    and u: "leaves_key example_marshal example_create_operation ''url''"
    by (simp_all add: example_marshal_leaves_key)
  from inst run_s m u
  have "map_of ?r ''method'' = Some (PStr (upper (http_method example_create_operation)))"
    and "map_of ?r ''url'' = Some (PStr (rstrip_slash (api_url example_create_operation)
                                      @ path_name example_create_operation))"
    by blast+
  then have "map_of ?r ''method'' = Some (PStr ''POST'')"
    and "map_of ?r ''url'' = Some (PStr ''http://example.org/api/widgets'')"
    by simp_all
  with run_s run_t left_t other show ?thesis
    by blast
qed

section \<open>Properties of client construction\<close>

text \<open>
  With a transport from the caller, the key decides only whether construction gets past
  its first statement; the rest does not read it.
\<close>

lemma choose_http_client_supplied:
  "choose_http_client lib url pk (Some hc) = Inr hc"
  by (simp add: choose_http_client_def)

lemma from_spec_supplied:
  "from_spec lib fresh sd ou (Some hc) cfg rd pk =
     (case resolve_privkey lib fresh pk of
        Inl e \<Rightarrow> Inl e
      | Inr key \<Rightarrow>
          (case Spec_from_dict lib sd ou hc cfg of
             Inl e \<Rightarrow> Inl e
           | Inr spec \<Rightarrow>
               Inr \<lparr>swagger_spec = spec,
                    resource_decorator =
                      (case rd of None \<Rightarrow> BitJWSResourceDecorator | Some d \<Rightarrow> d)\<rparr>))"
  by (simp add: from_spec_def choose_http_client_supplied split: sum.splits)

lemma from_url_supplied:
  "from_url lib fresh url (Some hc) rh cfg rd pk =
     (case resolve_privkey lib fresh pk of
        Inl e \<Rightarrow> Inl e
      | Inr key \<Rightarrow>
          (case load_spec lib hc rh url of
             Inl e \<Rightarrow> Inl e
           | Inr sd \<Rightarrow>
               (case Spec_from_dict lib sd (Some url) hc cfg of
                  Inl e \<Rightarrow> Inl e
                | Inr spec \<Rightarrow>
                    Inr \<lparr>swagger_spec = spec,
                         resource_decorator =
                           (case rd of None \<Rightarrow> BitJWSResourceDecorator | Some d \<Rightarrow> d)\<rparr>)))"
  by (simp add: from_url_def from_spec_supplied choose_http_client_supplied resolve_privkey_def
      split: sum.splits)

text \<open>
  Without a transport and without an origin URL, \<^verbatim>\<open>from_spec\<close> asks the URL library
  for the host of \<^verbatim>\<open>None\<close>; what that call does decides whether construction fails
  there or registers the key for the host it returns.
\<close>

lemma from_spec_without_client_and_origin:
  "from_spec lib fresh sd None None cfg rd pk =
     (case resolve_privkey lib fresh pk of
        Inl e \<Rightarrow> Inl e
      | Inr key \<Rightarrow>
          (case urlsplit_hostname lib None of
             Inl e \<Rightarrow> Inl e
           | Inr host \<Rightarrow>
               (case Spec_from_dict lib sd None
                       (BitJWSRequestsClient [(host, privkey_to_wif lib (private_key key))]) cfg of
                  Inl e \<Rightarrow> Inl e
                | Inr spec \<Rightarrow>
                    Inr \<lparr>swagger_spec = spec,
                         resource_decorator =
                           (case rd of None \<Rightarrow> BitJWSResourceDecorator | Some d \<Rightarrow> d)\<rparr>)))"
  by (simp add: from_spec_def choose_http_client_def split: sum.splits)

text \<open>
  C9. The caller supplies the transport. Two runs of \<^verbatim>\<open>from_spec\<close>, or of
  \<^verbatim>\<open>from_url\<close>, that differ only in the key argument and in the key that the
  generator yields, and that both return a client, return the same client; its
  specification is the one built over the supplied transport as it was given, with no
  key registered on it.
\<close>

theorem privkey_has_no_effect_with_supplied_client:
  "(from_spec lib fresh1 sd ou (Some hc) cfg rd pk1 = Inr c1 \<and>
    from_spec lib fresh2 sd ou (Some hc) cfg rd pk2 = Inr c2
    \<longrightarrow> c1 = c2 \<and> Spec_from_dict lib sd ou hc cfg = Inr (swagger_spec c1)) \<and>
   (from_url lib fresh1 url (Some hc) rh cfg rd pk1 = Inr d1 \<and>
    from_url lib fresh2 url (Some hc) rh cfg rd pk2 = Inr d2
    \<longrightarrow> d1 = d2 \<and>
        (\<exists>doc. load_spec lib hc rh url = Inr doc \<and>
               Spec_from_dict lib doc (Some url) hc cfg = Inr (swagger_spec d1)))"
proof -
  have "c1 = c2 \<and> Spec_from_dict lib sd ou hc cfg = Inr (swagger_spec c1)"
    if "from_spec lib fresh1 sd ou (Some hc) cfg rd pk1 = Inr c1"
      and "from_spec lib fresh2 sd ou (Some hc) cfg rd pk2 = Inr c2"
    using that by (auto simp: from_spec_supplied split: sum.splits)
  moreover have "d1 = d2 \<and>
        (\<exists>doc. load_spec lib hc rh url = Inr doc \<and>
               Spec_from_dict lib doc (Some url) hc cfg = Inr (swagger_spec d1))"
    if "from_url lib fresh1 url (Some hc) rh cfg rd pk1 = Inr d1"
      and "from_url lib fresh2 url (Some hc) rh cfg rd pk2 = Inr d2"
    using that by (auto simp: from_url_supplied split: sum.splits)
  ultimately show ?thesis
    by blast
qed

theorem privkey_has_no_effect_with_supplied_client_witness:
  "from_spec example_libraries \<lparr>private_key = ''generated in run 2''\<rparr> (PDict []) None
     (Some (CustomClient ''requests'')) PNone None (Some (WIF ''a key in WIF''))
   = Inr \<lparr>swagger_spec = (PDict [], None, CustomClient ''requests'', PNone),
          resource_decorator = BitJWSResourceDecorator\<rparr> \<and>
   from_url example_libraries \<lparr>private_key = ''generated in run 2''\<rparr> ''http://example.org/swagger.json''
     (Some (BitJWSRequestsClient [(Some ''other.org'', ''their key'')])) PNone PNone None
     (Some (KeyObject \<lparr>private_key = ''raw''\<rparr>))
   = Inr \<lparr>swagger_spec = (PDict [(''swagger'', PStr ''2.0'')], Some ''http://example.org/swagger.json'',
                          BitJWSRequestsClient [(Some ''other.org'', ''their key'')], PNone),
          resource_decorator = BitJWSResourceDecorator\<rparr>"
proof -
  let ?c = "\<lparr>swagger_spec = (PDict [], None :: string option, CustomClient ''requests'', PNone),
             resource_decorator = BitJWSResourceDecorator\<rparr>"
  let ?d = "\<lparr>swagger_spec = (PDict [(''swagger'', PStr ''2.0'')], Some ''http://example.org/swagger.json'',
                          BitJWSRequestsClient [(Some ''other.org'', ''their key'')] :: string http_client, PNone),
          resource_decorator = BitJWSResourceDecorator\<rparr>"
  have c1: "from_spec example_libraries \<lparr>private_key = ''generated in run 1''\<rparr> (PDict []) None
              (Some (CustomClient ''requests'')) PNone None None = Inr ?c"
    by (simp add: from_spec_def resolve_privkey_def choose_http_client_def example_libraries_def)
  have "\<exists>c2. from_spec example_libraries \<lparr>private_key = ''generated in run 2''\<rparr> (PDict []) None
              (Some (CustomClient ''requests'')) PNone None (Some (WIF ''a key in WIF'')) = Inr c2"
    by (simp add: from_spec_def resolve_privkey_def choose_http_client_def example_libraries_def)
  then obtain c2 where c2: "from_spec example_libraries \<lparr>private_key = ''generated in run 2''\<rparr>
      (PDict []) None (Some (CustomClient ''requests'')) PNone None (Some (WIF ''a key in WIF''))
      = Inr c2"
    by blast
  have d1: "from_url example_libraries \<lparr>private_key = ''generated in run 1''\<rparr>
              ''http://example.org/swagger.json''
              (Some (BitJWSRequestsClient [(Some ''other.org'', ''their key'')])) PNone PNone None None
            = Inr ?d"
    by (simp add: from_url_def from_spec_def resolve_privkey_def choose_http_client_def
        example_libraries_def)
  have "\<exists>d2. from_url example_libraries \<lparr>private_key = ''generated in run 2''\<rparr>
              ''http://example.org/swagger.json''
              (Some (BitJWSRequestsClient [(Some ''other.org'', ''their key'')])) PNone PNone None
              (Some (KeyObject \<lparr>private_key = ''raw''\<rparr>)) = Inr d2"
    by (simp add: from_url_def from_spec_def resolve_privkey_def choose_http_client_def
        example_libraries_def)
  then obtain d2 where d2: "from_url example_libraries \<lparr>private_key = ''generated in run 2''\<rparr>
              ''http://example.org/swagger.json''
              (Some (BitJWSRequestsClient [(Some ''other.org'', ''their key'')])) PNone PNone None
              (Some (KeyObject \<lparr>private_key = ''raw''\<rparr>)) = Inr d2"
    by blast
  from privkey_has_no_effect_with_supplied_client
    [where lib = example_libraries and ?fresh1.0 = "\<lparr>private_key = ''generated in run 1''\<rparr>"
       and sd = "PDict []" and ou = None and hc = "CustomClient ''requests''" and cfg = PNone
       and rd = None and ?pk1.0 = None and ?c1.0 = ?c
       and ?fresh2.0 = "\<lparr>private_key = ''generated in run 2''\<rparr>"
       and ?pk2.0 = "Some (WIF ''a key in WIF'')" and ?c2.0 = c2]
    c1 c2
  have "?c = c2"
    by blast
  moreover
  from privkey_has_no_effect_with_supplied_client
    [where lib = example_libraries and ?fresh1.0 = "\<lparr>private_key = ''generated in run 1''\<rparr>"
       and hc = "BitJWSRequestsClient [(Some ''other.org'', ''their key'')]" and cfg = PNone
       and rd = None and ?pk1.0 = None and url = "''http://example.org/swagger.json''"
       and rh = PNone and ?d1.0 = ?d
       and ?fresh2.0 = "\<lparr>private_key = ''generated in run 2''\<rparr>"
       and ?pk2.0 = "Some (KeyObject \<lparr>private_key = ''raw''\<rparr>)" and ?d2.0 = d2]
    d1 d2
  have "?d = d2"
    by blast
  ultimately show ?thesis
    using c2 d2 by simp
qed

end
